theory Spec2Isabelle
  imports Main "HOL-Library.Word"
begin

unbundle bit_operations_syntax

section \<open>Packet codec (package packet)\<close>

subsection \<open>Machine integers, errors and panics\<close>

text \<open>
  Go's \<open>byte\<close>, \<open>int32\<close>, \<open>int64\<close> and \<open>uint64\<close> are words of the matching width; the
  signed types are read with \<open>sint\<close>. Go's \<open>int\<close> (lengths of slices and strings, and
  the widening \<open>int(x)\<close> of an \<open>int32\<close>) is modelled as \<open>int\<close>: every value it takes in
  the code below is a slice length or a sign-extended \<open>int32\<close>, so it never overflows.
\<close>

type_synonym byte = "8 word"
type_synonym int16 = "16 word"
type_synonym int32 = "32 word"
type_synonym int64 = "64 word"
type_synonym uint64 = "64 word"

text \<open>A run-time panic unwinds through every caller; it is not an \<open>error\<close> value that
  \<open>fmt.Errorf\<close> could wrap.\<close>

datatype panic =
    IndexOutOfRange          \<comment> \<open>\<open>buf[i]\<close> with \<open>i \<ge> len(buf)\<close>\<close>
  | MakesliceLenOutOfRange   \<comment> \<open>\<open>make([]byte, n)\<close> with \<open>n < 0\<close>\<close>
  | NilDereference           \<comment> \<open>a method call on the nil \<open>net.Conn\<close>\<close>

datatype error =
    io_EOF
  | io_ErrUnexpectedEOF
  | binary_errOverflow                 \<comment> \<open>\<open>binary.ReadUvarint\<close>: "varint overflows a 64-bit integer"\<close>
  | conn_read_error                    \<comment> \<open>\<open>conn.Read\<close> failed (end of stream or deadline)\<close>
  | conn_write_error
  | conn_deadline_error
  | dial_error
  | VarIntTooLong                      \<comment> \<open>"varint is too long"\<close>
  | ReceivedPacketTooLong int          \<comment> \<open>"received packet is too long: %d"\<close>
  | PacketExceedsMax int               \<comment> \<open>"packet exceeds max packet length of %d by %d bytes"\<close>
  | StringTooLong                      \<comment> \<open>"string is longer than %d"\<close>
  | ReceivedStringTooLong int          \<comment> \<open>"received string exceeds the max string length: %d"\<close>
  | NegativeReadLength int             \<comment> \<open>"read length cannot be negative: %d"\<close>
  | AlreadyConnected                   \<comment> \<open>"client is already connected"\<close>
  | WrongPongId                        \<comment> \<open>"server responded with wrong pong id"\<close>
  | BadPacketId int32                  \<comment> \<open>"response packet contains bad packet id: %d"\<close>
  | DisconnectPacket "byte list"            \<comment> \<open>"disconnect packet from server: %s"\<close>
  | Wrapped string error               \<comment> \<open>\<open>fmt.Errorf("<context>: %w", err)\<close>\<close>
  | Panic panic

fun wrap :: "string \<Rightarrow> error \<Rightarrow> error" where
  "wrap ctx (Panic p) = Panic p"
| "wrap ctx e = Wrapped ctx e"

definition MaxPacketLength :: int where
  "MaxPacketLength = 2097151"

definition MaxStringLength :: int where
  "MaxStringLength = 32767"

subsection \<open>Outbound packets (outbound.go)\<close>

record OutboundPacket =
  op_id :: int32
  op_body :: "byte list"

definition NewOutboundPacket :: "int32 \<Rightarrow> OutboundPacket" where
  "NewOutboundPacket i = \<lparr>op_id = i, op_body = []\<rparr>"

definition WriteByte :: "OutboundPacket \<Rightarrow> byte \<Rightarrow> OutboundPacket" where
  "WriteByte p b = p\<lparr>op_body := op_body p @ [b]\<rparr>"

definition WriteBytes :: "OutboundPacket \<Rightarrow> byte list \<Rightarrow> OutboundPacket" where
  "WriteBytes p b = p\<lparr>op_body := op_body p @ b\<rparr>"

text \<open>
  \<open>binary.PutUvarint(buf, x)\<close> of the Go library:
  \<^verbatim>\<open>i := 0; for x >= 0x80 { buf[i] = byte(x) | 0x80; x >>= 7; i++ }; buf[i] = byte(x); return i + 1\<close>
  The model carries the capacity \<open>cap\<close> of \<open>buf\<close> and the bytes written so far
  (\<open>buf[:i]\<close>); a store at an index beyond the capacity panics. The result is \<open>buf[:size]\<close>.
\<close>

function PutUvarint_loop :: "nat \<Rightarrow> uint64 \<Rightarrow> byte list \<Rightarrow> error + byte list" where
  "PutUvarint_loop cap x written =
     (if 0x80 \<le> x then
        (if length written < cap
         then PutUvarint_loop cap (drop_bit 7 x) (written @ [ucast x OR 0x80])
         else Inl (Panic IndexOutOfRange))
      else
        (if length written < cap then Inr (written @ [ucast x])
         else Inl (Panic IndexOutOfRange)))"
  by pat_completeness auto
termination
proof (relation "measure (\<lambda>(cap, x, written). unat x)")
  show "wf (measure (\<lambda>(cap, x, written). unat x))" by simp
next
  fix cap :: nat and x :: uint64 and written :: "byte list"
  assume "0x80 \<le> x"
  then have "128 \<le> unat x" by (simp add: word_le_nat_alt)
  then have "unat x div 128 < unat x" by simp
  then show "((cap, drop_bit 7 x, written @ [ucast x OR 0x80]), (cap, x, written))
      \<in> measure (\<lambda>(cap, x, written). unat x)"
    by (simp add: drop_bit_eq_div unat_div)
qed

definition PutUvarint :: "nat \<Rightarrow> uint64 \<Rightarrow> error + byte list" where
  "PutUvarint cap x = PutUvarint_loop cap x []"

definition MaxVarintLen32 :: nat where "MaxVarintLen32 = 5"
definition MaxVarintLen64 :: nat where "MaxVarintLen64 = 10"

text \<open>\<open>uint64(value)\<close> of an \<open>int32\<close> sign-extends: \<open>scast\<close>.\<close>

definition encodeVarInt :: "int32 \<Rightarrow> error + byte list" where
  "encodeVarInt v = PutUvarint MaxVarintLen32 (scast v)"

definition WriteVarInt :: "OutboundPacket \<Rightarrow> int32 \<Rightarrow> error + OutboundPacket" where
  "WriteVarInt p n =
     (case PutUvarint MaxVarintLen32 (scast n) of
        Inl e \<Rightarrow> Inl e
      | Inr bs \<Rightarrow> Inr (WriteBytes p bs))"

definition WriteVarLong :: "OutboundPacket \<Rightarrow> int64 \<Rightarrow> error + OutboundPacket" where
  "WriteVarLong p n =
     (case PutUvarint MaxVarintLen64 n of
        Inl e \<Rightarrow> Inl e
      | Inr bs \<Rightarrow> Inr (WriteBytes p bs))"


text \<open>\<open>binary.BigEndian.PutUint16/32/64\<close>: most significant byte first.\<close>

definition PutUint16 :: "16 word \<Rightarrow> byte list" where
  "PutUint16 v = [ucast (drop_bit 8 v), ucast v]"

definition PutUint32 :: "32 word \<Rightarrow> byte list" where
  "PutUint32 v = [ucast (drop_bit 24 v), ucast (drop_bit 16 v), ucast (drop_bit 8 v), ucast v]"

definition PutUint64 :: "uint64 \<Rightarrow> byte list" where
  "PutUint64 v =
     [ucast (drop_bit 56 v), ucast (drop_bit 48 v), ucast (drop_bit 40 v), ucast (drop_bit 32 v),
      ucast (drop_bit 24 v), ucast (drop_bit 16 v), ucast (drop_bit 8 v), ucast v]"

definition WriteInt :: "OutboundPacket \<Rightarrow> int32 \<Rightarrow> OutboundPacket" where
  "WriteInt p n = WriteBytes p (PutUint32 n)"

definition WriteShort :: "OutboundPacket \<Rightarrow> int16 \<Rightarrow> OutboundPacket" where
  "WriteShort p n = WriteBytes p (PutUint16 n)"

definition WriteLong :: "OutboundPacket \<Rightarrow> int64 \<Rightarrow> OutboundPacket" where
  "WriteLong p n = WriteBytes p (PutUint64 n)"

definition WriteBool :: "OutboundPacket \<Rightarrow> bool \<Rightarrow> OutboundPacket" where
  "WriteBool p v = (if v then WriteByte p 1 else WriteByte p 0)"

text \<open>A Go string is its byte sequence: \<open>len(str)\<close> counts bytes and \<open>[]byte(str)\<close> is
  the identity, so the codec handles strings as byte lists. \<open>WriteString\<close> mutates its
  receiver and returns an \<open>error\<close>: the model returns the error (\<open>None\<close> is \<open>nil\<close>)
  together with the packet as the call leaves it, also when it fails.\<close>

definition WriteString :: "OutboundPacket \<Rightarrow> byte list \<Rightarrow> error option \<times> OutboundPacket" where
  "WriteString p str =
     (let len = int (length str) in
      if len > MaxStringLength then (Some StringTooLong, p)
      else (case WriteVarInt p (word_of_int len) of
              Inl e \<Rightarrow> (Some e, p)
            | Inr p' \<Rightarrow> (None, WriteBytes p' str)))"

definition Build :: "OutboundPacket \<Rightarrow> error + byte list" where
  "Build p =
     (case encodeVarInt (op_id p) of
        Inl e \<Rightarrow> Inl e
      | Inr idb \<Rightarrow>
          (let packet = idb @ op_body p; len = int (length packet) in
           if len > MaxPacketLength then Inl (PacketExceedsMax (len - MaxPacketLength))
           else (case encodeVarInt (word_of_int len) of
                   Inl e \<Rightarrow> Inl e
                 | Inr lb \<Rightarrow> Inr (lb @ packet))))"

subsection \<open>The connection\<close>

text \<open>
  A \<open>net.Conn\<close> as the codec sees it: the bytes the peer will still deliver
  (\<open>inbound\<close>; when they run out the peer has closed and a read returns \<open>io.EOF\<close>),
  the buffers handed to \<open>conn.Write\<close> so far in order (\<open>sent\<close>), how many more writes
  succeed before one fails (\<open>wr_budget\<close>), and whether \<open>SetReadDeadline\<close> succeeds.
  Deadlines expiring are not modelled.
\<close>

record Conn =
  inbound :: "byte list"
  sent :: "byte list list"
  wr_budget :: nat
  deadline_ok :: bool

definition conn_Write :: "Conn \<Rightarrow> byte list \<Rightarrow> error option \<times> Conn" where
  "conn_Write c bs =
     (if wr_budget c = 0 then (Some conn_write_error, c)
      else (None, c\<lparr>sent := sent c @ [bs], wr_budget := wr_budget c - 1\<rparr>))"

definition Write :: "OutboundPacket \<Rightarrow> Conn \<Rightarrow> error option \<times> Conn" where
  "Write p c =
     (case Build p of
        Inl e \<Rightarrow> (Some e, c)
      | Inr packet \<Rightarrow>
          (case conn_Write c packet of
             (Some e, c') \<Rightarrow> (Some (wrap ''failed to write packet'' e), c')
           | (None, c') \<Rightarrow> (None, c')))"

text \<open>\<open>io.ReadFull(r, buf)\<close> with \<open>len(buf) = n\<close> on a stream whose unread bytes are \<open>r\<close>:
  all \<open>n\<close> bytes, or \<open>io.EOF\<close> when nothing could be read and \<open>io.ErrUnexpectedEOF\<close>
  when the stream ended part-way (the stream is then drained). With \<open>n = 0\<close> it returns
  at once without reading.\<close>

definition ReadFull :: "byte list \<Rightarrow> nat \<Rightarrow> (error + byte list) \<times> byte list" where
  "ReadFull r n =
     (if n \<le> length r then (Inr (take n r), drop n r)
      else (Inl (if r = [] then io_EOF else io_ErrUnexpectedEOF), []))"

subsection \<open>Inbound packets (inbound.go)\<close>

record InboundPacket =
  ip_id :: int32
  ip_reader :: "byte list"   \<comment> \<open>the unread bytes of \<open>bufio.NewReader(bytes.NewReader(body))\<close>\<close>

text \<open>
  \<open>readVarInt(conn)\<close>: one byte per \<open>conn.Read\<close>;
  \<^verbatim>\<open>num |= int32(byteValue&0x7F) << shift; if (byteValue & 0x80) == 0 { break };
  shift += 7; if shift >= 32 { return 0, fmt.Errorf("varint is too long") }\<close>
  The function returns the result and the bytes the connection still holds.
\<close>

fun readVarInt_loop :: "int32 \<Rightarrow> nat \<Rightarrow> byte list \<Rightarrow> (error + int32) \<times> byte list" where
  "readVarInt_loop num shift [] = (Inl (Wrapped ''failed to read varint'' io_EOF), [])"
| "readVarInt_loop num shift (byteValue # rest) =
     (let num' = num OR push_bit shift (ucast (byteValue AND 0x7F)) in
      if byteValue AND 0x80 = 0 then (Inr num', rest)
      else if 32 \<le> shift + 7 then (Inl VarIntTooLong, rest)
      else readVarInt_loop num' (shift + 7) rest)"

definition readVarInt :: "byte list \<Rightarrow> (error + int32) \<times> byte list" where
  "readVarInt c = readVarInt_loop 0 0 c"

text \<open>
  \<open>binary.ReadUvarint(r)\<close> of the Go library:
  \<^verbatim>\<open>for i := 0; i < MaxVarintLen64; i++ {
    b, err := r.ReadByte()
    if err != nil { if i > 0 && err == io.EOF { err = io.ErrUnexpectedEOF }; return x, err }
    if b < 0x80 { if i == MaxVarintLen64-1 && b > 1 { return x, errOverflow }
                  return x | uint64(b)<<s, nil }
    x |= uint64(b&0x7f) << s; s += 7 }
  return x, errOverflow\<close>
\<close>

function ReadUvarint_loop :: "nat \<Rightarrow> uint64 \<Rightarrow> nat \<Rightarrow> byte list \<Rightarrow> (error + uint64) \<times> byte list" where
  "ReadUvarint_loop i x s r =
     (if i < MaxVarintLen64 then
        (case r of
           [] \<Rightarrow> (Inl (if 0 < i then io_ErrUnexpectedEOF else io_EOF), [])
         | b # r' \<Rightarrow>
             (if b < 0x80 then
                (if i = MaxVarintLen64 - 1 \<and> 1 < b then (Inl binary_errOverflow, r')
                 else (Inr (x OR push_bit s (ucast b)), r'))
              else ReadUvarint_loop (i + 1) (x OR push_bit s (ucast (b AND 0x7F))) (s + 7) r'))
      else (Inl binary_errOverflow, r))"
  by pat_completeness auto
termination
  by (relation "measure (\<lambda>(i, x, s, r). MaxVarintLen64 - i)") auto

definition ReadUvarint :: "byte list \<Rightarrow> (error + uint64) \<times> byte list" where
  "ReadUvarint r = ReadUvarint_loop 0 0 0 r"

definition ReadVarInt :: "InboundPacket \<Rightarrow> (error + int32) \<times> InboundPacket" where
  "ReadVarInt p =
     (case ReadUvarint (ip_reader p) of
        (Inl e, r) \<Rightarrow> (Inl e, p\<lparr>ip_reader := r\<rparr>)
      | (Inr n, r) \<Rightarrow> (Inr (ucast n), p\<lparr>ip_reader := r\<rparr>))"

definition ReadVarLong :: "InboundPacket \<Rightarrow> (error + int64) \<times> InboundPacket" where
  "ReadVarLong p =
     (case ReadVarInt p of
        (Inl e, p') \<Rightarrow> (Inl e, p')
      | (Inr n, p') \<Rightarrow> (Inr (scast n), p'))"


text \<open>\<open>binary.BigEndian.Uint16/32/64\<close> on a buffer of exactly that many bytes.\<close>

definition Uint16 :: "byte list \<Rightarrow> 16 word" where
  "Uint16 b = (ucast (b ! 1) OR push_bit 8 (ucast (b ! 0)))"

definition Uint32 :: "byte list \<Rightarrow> 32 word" where
  "Uint32 b = (ucast (b ! 3) OR push_bit 8 (ucast (b ! 2)) OR push_bit 16 (ucast (b ! 1))
                OR push_bit 24 (ucast (b ! 0)))"

definition Uint64 :: "byte list \<Rightarrow> uint64" where
  "Uint64 b = (ucast (b ! 7) OR push_bit 8 (ucast (b ! 6)) OR push_bit 16 (ucast (b ! 5))
                OR push_bit 24 (ucast (b ! 4)) OR push_bit 32 (ucast (b ! 3))
                OR push_bit 40 (ucast (b ! 2)) OR push_bit 48 (ucast (b ! 1))
                OR push_bit 56 (ucast (b ! 0)))"

definition ReadInt :: "InboundPacket \<Rightarrow> (error + int32) \<times> InboundPacket" where
  "ReadInt p =
     (case ReadFull (ip_reader p) 4 of
        (Inl e, r) \<Rightarrow> (Inl (wrap ''failed to read int'' e), p\<lparr>ip_reader := r\<rparr>)
      | (Inr buf, r) \<Rightarrow> (Inr (Uint32 buf), p\<lparr>ip_reader := r\<rparr>))"

definition ReadShort :: "InboundPacket \<Rightarrow> (error + int16) \<times> InboundPacket" where
  "ReadShort p =
     (case ReadFull (ip_reader p) 2 of
        (Inl e, r) \<Rightarrow> (Inl (wrap ''failed to read short'' e), p\<lparr>ip_reader := r\<rparr>)
      | (Inr buf, r) \<Rightarrow> (Inr (Uint16 buf), p\<lparr>ip_reader := r\<rparr>))"

definition ReadLong :: "InboundPacket \<Rightarrow> (error + int64) \<times> InboundPacket" where
  "ReadLong p =
     (case ReadFull (ip_reader p) 8 of
        (Inl e, r) \<Rightarrow> (Inl (wrap ''failed to read long'' e), p\<lparr>ip_reader := r\<rparr>)
      | (Inr buf, r) \<Rightarrow> (Inr (Uint64 buf), p\<lparr>ip_reader := r\<rparr>))"

text \<open>
  \<open>reader.Read(p)\<close> of the buffered reader with \<open>len(p) = k > 0\<close>: at least one byte and
  at most \<open>k\<close> while bytes remain, \<open>io.EOF\<close> afterwards. The model hands out as many of
  the \<open>k\<close> bytes as remain; the loop of \<open>readBytes\<close> below does not depend on how the
  library cuts the segments.
\<close>

definition reader_Read :: "byte list \<Rightarrow> nat \<Rightarrow> (error + byte list) \<times> byte list" where
  "reader_Read r k = (if r = [] then (Inl io_EOF, []) else (Inr (take k r), drop k r))"

text \<open>The loop \<open>for received < length\<close> of \<open>readBytes\<close>; \<open>data\<close> holds the
  \<open>received\<close> bytes stored so far.\<close>

function readBytes_loop :: "byte list \<Rightarrow> nat \<Rightarrow> byte list \<Rightarrow> (error + byte list) \<times> byte list" where
  "readBytes_loop reader len data =
     (if length data < len then
        (case reader_Read reader (len - length data) of
           (Inl e, reader') \<Rightarrow> (Inl (wrap ''failed to read packet segment'' e), reader')
         | (Inr segment, reader') \<Rightarrow> readBytes_loop reader' len (data @ segment))
      else (Inr data, reader))"
  by pat_completeness auto
termination
  apply (relation "measure (\<lambda>(reader, len, data). len - length data)")
   apply simp
  apply (auto simp: reader_Read_def min_def neq_Nil_conv split: if_splits)
  done

definition readBytes :: "byte list \<Rightarrow> int \<Rightarrow> (error + byte list) \<times> byte list" where
  "readBytes reader len =
     (if len < 0 then (Inl (NegativeReadLength len), reader)
      else readBytes_loop reader (nat len) [])"

definition ReadBytes :: "InboundPacket \<Rightarrow> int \<Rightarrow> (error + byte list) \<times> InboundPacket" where
  "ReadBytes p len =
     (case readBytes (ip_reader p) len of
        (Inl e, r) \<Rightarrow> (Inl (wrap ''failed to read bytes'' e), p\<lparr>ip_reader := r\<rparr>)
      | (Inr b, r) \<Rightarrow> (Inr b, p\<lparr>ip_reader := r\<rparr>))"

definition ReadByte :: "InboundPacket \<Rightarrow> (error + byte) \<times> InboundPacket" where
  "ReadByte p =
     (case ReadBytes p 1 of
        (Inl e, p') \<Rightarrow> (Inl (wrap ''failed to read byte'' e), p')
      | (Inr buf, p') \<Rightarrow> (Inr (buf ! 0), p'))"

definition ReadBool :: "InboundPacket \<Rightarrow> (error + bool) \<times> InboundPacket" where
  "ReadBool p =
     (case ReadByte p of
        (Inl e, p') \<Rightarrow> (Inl (wrap ''failed to read bool'' e), p')
      | (Inr v, p') \<Rightarrow> (Inr (v \<noteq> 0), p'))"

definition ReadString :: "InboundPacket \<Rightarrow> (error + byte list) \<times> InboundPacket" where
  "ReadString p =
     (case ReadVarInt p of
        (Inl e, p') \<Rightarrow> (Inl (wrap ''failed to read string length'' e), p')
      | (Inr uLength, p') \<Rightarrow>
          (let len = sint uLength in
           if len > MaxStringLength then (Inl (ReceivedStringTooLong len), p')
           else (case ReadBytes p' len of
                   (Inl e, p'') \<Rightarrow> (Inl (wrap ''failed to read string'' e), p'')
                 | (Inr raw, p'') \<Rightarrow> (Inr raw, p''))))"

text \<open>
  \<open>NewInboundPacket(conn, timeout)\<close>. Besides the packet or the error, the model returns
  the connection afterwards and \<open>body_alloc\<close>: the size of the body buffer when
  \<open>make([]byte, length)\<close> was reached and returned, \<open>None\<close> otherwise. \<open>make\<close> with a
  negative length panics.
\<close>

record inbound_result =
  outcome :: "error + InboundPacket"
  conn_after :: Conn
  body_alloc :: "int option"

definition NewInboundPacket :: "Conn \<Rightarrow> inbound_result" where
  "NewInboundPacket c =
     (if \<not> deadline_ok c then
        \<lparr>outcome = Inl (wrap ''failed to set read deadline'' conn_deadline_error),
         conn_after = c, body_alloc = None\<rparr>
      else
        (case readVarInt (inbound c) of
           (Inl e, rest) \<Rightarrow>
             \<lparr>outcome = Inl (wrap ''failed to read packet length'' e),
              conn_after = c\<lparr>inbound := rest\<rparr>, body_alloc = None\<rparr>
         | (Inr uLength, rest) \<Rightarrow>
             (let len = sint uLength in
              if len > MaxPacketLength then
                \<lparr>outcome = Inl (ReceivedPacketTooLong len),
                 conn_after = c\<lparr>inbound := rest\<rparr>, body_alloc = None\<rparr>
              else if len < 0 then
                \<lparr>outcome = Inl (Panic MakesliceLenOutOfRange),
                 conn_after = c\<lparr>inbound := rest\<rparr>, body_alloc = None\<rparr>
              else
                (case ReadFull rest (nat len) of
                   (Inl e, rest') \<Rightarrow>
                     \<lparr>outcome = Inl (wrap ''failed to receive packet body'' e),
                      conn_after = c\<lparr>inbound := rest'\<rparr>, body_alloc = Some len\<rparr>
                 | (Inr body, rest') \<Rightarrow>
                     (case ReadVarInt \<lparr>ip_id = 0, ip_reader = body\<rparr> of
                        (Inl e, p) \<Rightarrow>
                          \<lparr>outcome = Inl (wrap ''failed to read packet id'' e),
                           conn_after = c\<lparr>inbound := rest'\<rparr>, body_alloc = Some len\<rparr>
                      | (Inr packetID, p) \<Rightarrow>
                          \<lparr>outcome = Inr (p\<lparr>ip_id := packetID\<rparr>),
                           conn_after = c\<lparr>inbound := rest'\<rparr>, body_alloc = Some len\<rparr>)))))"


text \<open>The byte sequence that \<open>binary.PutUvarint\<close> produces when the buffer is large
  enough; \<open>PutUvarint_loop\<close> is characterised with it below.\<close>

function uvarint_bytes :: "uint64 \<Rightarrow> byte list" where
  "uvarint_bytes x =
     (if 0x80 \<le> x then (ucast x OR 0x80) # uvarint_bytes (drop_bit 7 x) else [ucast x])"
  by pat_completeness auto
termination
  apply (relation "measure unat")
   apply simp
  apply (simp add: drop_bit_eq_div unat_div word_le_nat_alt)
  done

subsection \<open>Packet ids (id.go)\<close>

definition HandshakeID :: int32 where "HandshakeID = 0"
definition StatusID :: int32 where "StatusID = 0"
definition PingID :: int32 where "PingID = 1"
definition PongID :: int32 where "PongID = 1"
definition DisconnectID :: int32 where "DisconnectID = 27"
definition LegacyDisconnectID :: int32 where "LegacyDisconnectID = 26"

section \<open>The client (client.go)\<close>

definition StatusState :: int32 where "StatusState = 1"
definition LoginState :: int32 where "LoginState = 2"

text \<open>\<open>ConnState\<close> is an \<open>int64\<close> enumeration (\<open>iota\<close>); the code compares states with
  \<open><\<close> and \<open>>\<close>, which \<open>state_rank\<close> provides.\<close>

datatype ConnState = Idle | Connected | HandshakeComplete

fun state_rank :: "ConnState \<Rightarrow> nat" where
  "state_rank Idle = 0"
| "state_rank Connected = 1"
| "state_rank HandshakeComplete = 2"

record Address =
  host :: "byte list"
  port :: "16 word"
  srvHost :: "byte list"
  srvPort :: "16 word"
  srv :: bool
  portSet :: bool

definition Host :: "Address \<Rightarrow> byte list" where
  "Host a = (if srv a then srvHost a else host a)"

definition Port :: "Address \<Rightarrow> 16 word" where
  "Port a = (if srv a then srvPort a else port a)"

text \<open>
  What lies outside the program: the effect of \<open>addr.ResolveSRV()\<close> on the address (a
  DNS lookup), the outcome of \<open>net.DialTimeout\<close> for an address (\<open>None\<close> when it fails),
  and the clock: the Unix time that \<open>time.Now()\<close> reports in \<open>Ping\<close> and the milliseconds
  that \<open>time.Since(timestamp)\<close> measures there.
\<close>

record world =
  net_resolve :: "Address \<Rightarrow> Address"
  net_dial :: "Address \<Rightarrow> Conn option"
  clock_unix :: int64
  clock_since_ms :: int

record Client =
  addr :: Address
  use_srv :: bool                 \<comment> \<open>the field \<open>srv\<close> of \<open>Client\<close>\<close>
  protocol :: int32
  state :: ConnState
  conn :: "Conn option"           \<comment> \<open>\<open>None\<close> is the nil \<open>net.Conn\<close>\<close>

definition connect :: "world \<Rightarrow> Client \<Rightarrow> error option \<times> Client" where
  "connect w c =
     (if state_rank (state c) > state_rank Idle then (Some AlreadyConnected, c)
      else
        (let c1 = (if use_srv c then c\<lparr>addr := net_resolve w (addr c)\<rparr> else c) in
         case net_dial w (addr c1) of
           None \<Rightarrow> (Some (wrap ''failed to connect'' dial_error), c1)
         | Some k \<Rightarrow> (None, c1\<lparr>conn := Some k, state := Connected\<rparr>)))"

text \<open>\<open>packet.Write(c.conn)\<close> on the client's connection.\<close>

definition client_Write :: "OutboundPacket \<Rightarrow> Client \<Rightarrow> error option \<times> Client" where
  "client_Write p c =
     (case conn c of
        None \<Rightarrow>
          (case Build p of Inl e \<Rightarrow> (Some e, c) | Inr packet \<Rightarrow> (Some (Panic NilDereference), c))
      | Some k \<Rightarrow> (case Write p k of (r, k') \<Rightarrow> (r, c\<lparr>conn := Some k'\<rparr>)))"

definition sendHandshake :: "Client \<Rightarrow> int32 \<Rightarrow> error option \<times> Client" where
  "sendHandshake c st =
     (case WriteVarInt (NewOutboundPacket HandshakeID) (protocol c) of
        Inl e \<Rightarrow> (Some e, c)
      | Inr h1 \<Rightarrow>
          (case WriteString h1 (Host (addr c)) of
             (Some e, h2) \<Rightarrow> (Some (wrap ''failed to write host'' e), c)
           | (None, h2) \<Rightarrow>
               (case WriteVarInt (WriteShort h2 (Port (addr c))) st of
                  Inl e \<Rightarrow> (Some e, c)
                | Inr h3 \<Rightarrow>
                    (case client_Write h3 c of
                       (Some e, c') \<Rightarrow> (Some (wrap ''failed to send handshake'' e), c')
                     | (None, c') \<Rightarrow> (None, c'\<lparr>state := HandshakeComplete\<rparr>)))))"

definition connectAndHandshake :: "world \<Rightarrow> Client \<Rightarrow> int32 \<Rightarrow> error option \<times> Client" where
  "connectAndHandshake w c st =
     (case (if state_rank (state c) < state_rank Connected then connect w c else (None, c)) of
        (Some e, c1) \<Rightarrow> (Some e, c1)
      | (None, c1) \<Rightarrow>
          (if state_rank (state c1) < state_rank HandshakeComplete then sendHandshake c1 st
           else (None, c1)))"

definition sendStatusRequest :: "Client \<Rightarrow> error option \<times> Client" where
  "sendStatusRequest c =
     (case client_Write (NewOutboundPacket StatusID) c of
        (Some e, c') \<Rightarrow> (Some (wrap ''failed to send status request'' e), c')
      | (None, c') \<Rightarrow> (None, c'))"

text \<open>\<open>packet.NewInboundPacket(c.conn, c.timeout)\<close> on the client's connection.\<close>

definition client_NewInboundPacket :: "Client \<Rightarrow> (error + InboundPacket) \<times> Client" where
  "client_NewInboundPacket c =
     (case conn c of
        None \<Rightarrow> (Inl (Panic NilDereference), c)
      | Some k \<Rightarrow>
          (let r = NewInboundPacket k in (outcome r, c\<lparr>conn := Some (conn_after r)\<rparr>)))"

definition recvStatusResponse :: "Client \<Rightarrow> (error + byte list) \<times> Client" where
  "recvStatusResponse c =
     (case client_NewInboundPacket c of
        (Inl e, c') \<Rightarrow> (Inl (wrap ''failed to read status response'' e), c')
      | (Inr res, c') \<Rightarrow>
          (if ip_id res = DisconnectID \<or> ip_id res = LegacyDisconnectID then
             (case ReadString res of
                (Inl e, _) \<Rightarrow> (Inl (wrap ''failed to read disconnect reason'' e), c')
              | (Inr msg, _) \<Rightarrow> (Inl (DisconnectPacket msg), c'))
           else if ip_id res \<noteq> StatusID then (Inl (BadPacketId (ip_id res)), c')
           else
             (case ReadString res of
                (Inl e, _) \<Rightarrow> (Inl (wrap ''failed to read status response body'' e), c')
              | (Inr resBody, _) \<Rightarrow> (Inr resBody, c'))))"

text \<open>\<open>Status\<close>; \<open>NewResponse\<close> stands for \<open>slp.NewResponse\<close>, the JSON decoder of the
  status document.\<close>

definition Status ::
  "world \<Rightarrow> (byte list \<Rightarrow> error + 'r) \<Rightarrow> Client \<Rightarrow> (error + 'r) \<times> Client" where
  "Status w NewResponse c =
     (case connectAndHandshake w c StatusState of
        (Some e, c1) \<Rightarrow> (Inl e, c1)
      | (None, c1) \<Rightarrow>
          (case sendStatusRequest c1 of
             (Some e, c2) \<Rightarrow> (Inl e, c2)
           | (None, c2) \<Rightarrow>
               (case recvStatusResponse c2 of
                  (Inl e, c3) \<Rightarrow> (Inl (wrap ''failed to receive status response'' e), c3)
                | (Inr rawRes, c3) \<Rightarrow>
                    (case NewResponse rawRes of
                       Inl e \<Rightarrow> (Inl (wrap ''failed to parse json response'' e), c3)
                     | Inr res \<Rightarrow> (Inr res, c3)))))"

definition sendPing :: "Client \<Rightarrow> int64 \<Rightarrow> error option \<times> Client" where
  "sendPing c timestamp =
     (case client_Write (WriteLong (NewOutboundPacket PingID) timestamp) c of
        (Some e, c') \<Rightarrow> (Some (wrap ''failed to send ping'' e), c')
      | (None, c') \<Rightarrow> (None, c'))"

definition recvPong :: "Client \<Rightarrow> (error + int64) \<times> Client" where
  "recvPong c =
     (case client_NewInboundPacket c of
        (Inl e, c') \<Rightarrow> (Inl (wrap ''failed to read pong'' e), c')
      | (Inr pong, c') \<Rightarrow>
          (if ip_id pong \<noteq> PongID then (Inl (BadPacketId (ip_id pong)), c')
           else
             (case ReadLong pong of
                (Inl e, _) \<Rightarrow> (Inl (wrap ''failed to read pong id'' e), c')
              | (Inr i, _) \<Rightarrow> (Inr i, c'))))"

text \<open>\<open>Ping\<close> returns the pair \<open>(int, error)\<close>: the latency and the error (\<open>None\<close> is
  \<open>nil\<close>).\<close>

definition Ping :: "world \<Rightarrow> Client \<Rightarrow> (int \<times> error option) \<times> Client" where
  "Ping w c =
     (case connectAndHandshake w c StatusState of
        (Some e, c1) \<Rightarrow> ((0, Some e), c1)
      | (None, c1) \<Rightarrow>
          (let timestamp = clock_unix w in
           case sendPing c1 timestamp of
             (Some e, c2) \<Rightarrow> ((0, Some e), c2)
           | (None, c2) \<Rightarrow>
               (case recvPong c2 of
                  (Inl e, c3) \<Rightarrow> ((0, Some (wrap ''failed to receive pong'' e)), c3)
                | (Inr i, c3) \<Rightarrow>
                    (let latency = clock_since_ms w in
                     if i \<noteq> timestamp then ((latency, Some WrongPongId), c3)
                     else ((latency, None), c3\<lparr>state := Idle\<rparr>)))))"

text \<open>The body that \<open>sendHandshake\<close> assembles: protocol version, host name with its
  length prefix, port, next state.\<close>

definition handshake_body :: "Client \<Rightarrow> int32 \<Rightarrow> byte list" where
  "handshake_body c st =
     uvarint_bytes (ucast (protocol c)) @ uvarint_bytes (ucast (word_of_nat (length (Host (addr c))) :: int32))
       @ Host (addr c) @ PutUint16 (Port (addr c)) @ uvarint_bytes (ucast st)"

section \<open>Fingerprinting (package fingerprint)\<close>

text \<open>
  The repository holds two revisions of \<open>fingerprint.go\<close>: the file
  \<open>fingerprint/fingerprint.go\<close> and a second copy, which adds the \<open>Paper\<close> label, strips
  the \<open>state/channel\<close> prefix and knows one more version-mismatch key. Both are modelled;
  the definitions of the second copy carry the suffix \<open>_p2\<close>.

  Text is \<open>string\<close> here, one \<open>char\<close> per byte. The patterns of the code are given
  to Go's \<open>regexp\<close> package; the model covers the fragment they use: literals, \<open>\d\<close> and
  \<open>.\<close> repeated a bounded or unbounded number of times (greedy, or lazy for \<open>{2,3}?\<close>),
  sequence and alternation, with the leftmost-first preference of a backtracking
  matcher. Go's matcher steps through the text one UTF-8 code point at a time
  (\<open>utf8.DecodeRuneInString\<close>): a well-formed sequence of one to four bytes is one code
  point, and a byte that starts no well-formed sequence is one code point of its own
  (\<open>U+FFFD\<close>).
\<close>

text \<open>The table \<open>first\<close> of package \<open>utf8\<close> for a leading byte above ASCII: the length
  of the sequence and the range accepted for its second byte; \<open>None\<close> for a byte that
  cannot lead.\<close>

definition utf8_first :: "nat \<Rightarrow> (nat \<times> nat \<times> nat) option" where
  "utf8_first b =
     (if 0xC2 \<le> b \<and> b \<le> 0xDF then Some (2, 0x80, 0xBF)
      else if b = 0xE0 then Some (3, 0xA0, 0xBF)
      else if 0xE1 \<le> b \<and> b \<le> 0xEC then Some (3, 0x80, 0xBF)
      else if b = 0xED then Some (3, 0x80, 0x9F)
      else if b = 0xEE \<or> b = 0xEF then Some (3, 0x80, 0xBF)
      else if b = 0xF0 then Some (4, 0x90, 0xBF)
      else if 0xF1 \<le> b \<and> b \<le> 0xF3 then Some (4, 0x80, 0xBF)
      else if b = 0xF4 then Some (4, 0x80, 0x8F)
      else None)"

definition is_cont :: "char \<Rightarrow> bool" where
  "is_cont c = (0x80 \<le> (of_char c :: nat) \<and> (of_char c :: nat) \<le> 0xBF)"

text \<open>\<open>rune_extra c cs\<close>: how many bytes of \<open>cs\<close> belong to the code point that starts
  with the byte \<open>c\<close> (its width minus one), as \<open>utf8.DecodeRuneInString\<close> decides it.\<close>

definition rune_extra :: "char \<Rightarrow> string \<Rightarrow> nat" where
  "rune_extra c cs =
     (if (of_char c :: nat) < 0x80 then 0
      else case utf8_first (of_char c) of
        None \<Rightarrow> 0
      | Some (sz, lo, hi) \<Rightarrow>
          if length cs + 1 < sz then 0
          else case cs of
            [] \<Rightarrow> 0
          | c1 # cs1 \<Rightarrow>
              if (of_char c1 :: nat) < lo \<or> hi < (of_char c1 :: nat) then 0
              else if sz \<le> 2 then 1
              else case cs1 of
                [] \<Rightarrow> 0
              | c2 # cs2 \<Rightarrow>
                  if \<not> is_cont c2 then 0
                  else if sz \<le> 3 then 2
                  else case cs2 of
                    [] \<Rightarrow> 0
                  | c3 # cs3 \<Rightarrow> if \<not> is_cont c3 then 0 else 3)"

datatype cclass = Digit | AnyChar

text \<open>Whether a code point, given by its bytes, belongs to \<open>\d\<close> (an ASCII digit) or to
  \<open>.\<close> (anything but the newline).\<close>

fun in_class :: "cclass \<Rightarrow> string \<Rightarrow> bool" where
  "in_class Digit r = (case r of [c] \<Rightarrow> c \<in> set ''0123456789'' | _ \<Rightarrow> False)"
| "in_class AnyChar r = (r \<noteq> [CHR 0x0A])"

text \<open>\<open>class_runs c s\<close>: what is left of \<open>s\<close> after zero, one, two, ... code points of
  the class \<open>c\<close>, as long as they are there.\<close>

fun class_runs :: "cclass \<Rightarrow> string \<Rightarrow> string list" where
  "class_runs c [] = [[]]"
| "class_runs c (x # xs) =
     (x # xs) #
       (if in_class c (x # take (rune_extra x xs) xs)
        then class_runs c (drop (rune_extra x xs) xs) else [])"

datatype rx =
    Lit string
  | Rep cclass nat "nat option" bool   \<comment> \<open>class, minimum, maximum, greedy\<close>
  | Seq rx rx
  | Alt rx rx

fun strip_prefix :: "string \<Rightarrow> string \<Rightarrow> string option" where
  "strip_prefix [] s = Some s"
| "strip_prefix (p # ps) [] = None"
| "strip_prefix (p # ps) (c # cs) = (if p = c then strip_prefix ps cs else None)"

text \<open>\<open>rx_match r s\<close>: what is left of \<open>s\<close> after each way \<open>r\<close> can match at its start, in
  the order a backtracking matcher tries them.\<close>

fun rx_match :: "rx \<Rightarrow> string \<Rightarrow> string list" where
  "rx_match (Lit l) s = (case strip_prefix l s of None \<Rightarrow> [] | Some rest \<Rightarrow> [rest])"
| "rx_match (Rep c lo hi greedy) s =
     (let runs = (case hi of None \<Rightarrow> class_runs c s | Some h \<Rightarrow> take (Suc h) (class_runs c s));
          candidates = drop lo runs
      in if greedy then rev candidates else candidates)"
| "rx_match (Seq a b) s = concat (map (rx_match b) (rx_match a s))"
| "rx_match (Alt a b) s = rx_match a s @ rx_match b s"

text \<open>\<open>MatchString\<close> for a pattern written \<open>^r$\<close>.\<close>

definition MatchString_whole :: "rx \<Rightarrow> string \<Rightarrow> bool" where
  "MatchString_whole r s = ([] \<in> set (rx_match r s))"

text \<open>\<open>ReplaceAllString(s, "")\<close> for a pattern written \<open>r$\<close> that cannot match the empty
  string: the leftmost position from which \<open>r\<close> matches up to the end is cut off.\<close>

fun ReplaceAll_to_end :: "rx \<Rightarrow> string \<Rightarrow> string" where
  "ReplaceAll_to_end r [] = []"
| "ReplaceAll_to_end r (c # cs) =
     (if [] \<in> set (rx_match r (c # cs)) then [] else c # ReplaceAll_to_end r cs)"

text \<open>\<open>ReplaceAllString(s, "")\<close> for a pattern written \<open>^r\<close>: the preferred match at the
  start is removed.\<close>

definition ReplaceAll_at_start :: "rx \<Rightarrow> string \<Rightarrow> string" where
  "ReplaceAll_at_start r s = (case rx_match r s of [] \<Rightarrow> s | rest # _ \<Rightarrow> rest)"

definition TrimPrefix :: "string \<Rightarrow> string \<Rightarrow> string" where
  "TrimPrefix s prefix = (case strip_prefix prefix s of None \<Rightarrow> s | Some rest \<Rightarrow> rest)"

definition Vanilla :: string where "Vanilla = ''vanilla''"
definition CraftBukkit :: string where "CraftBukkit = ''craftbukkit''"
definition Paper :: string where "Paper = ''paper''"
definition Fabric :: string where "Fabric = ''fabric''"
definition Forge :: string where "Forge = ''forge''"
definition Velocity :: string where "Velocity = ''velocity''"
definition Unknown :: string where "Unknown = ''unknown''"

datatype fp_error =
    ConnectionThrottled                 \<comment> \<open>"connection throttled by server"\<close>
  | EmptyErrorTopic                     \<comment> \<open>"empty error topic"\<close>
  | UnfamiliarErrorTopic string         \<comment> \<open>"server responded with unfamiliar error topic: %s"\<close>
  | IncompleteDisconnectMessage         \<comment> \<open>"incomplete disconnect message"\<close>
  | VersionMismatchError string         \<comment> \<open>"version mismatch: %s"\<close>

record DisconnectMsg =
  Translate :: string
  With :: "string list"
  Text :: string

definition netty_prefix :: string where
  "netty_prefix =
     ''Internal Exception: io.netty.handler.codec.DecoderException: java.io.IOException: Packet ''"

text \<open>\<^verbatim>\<open>" was larger than I expected, found \d+ bytes extra whilst reading packet \d+$"\<close>\<close>

definition re_larger :: rx where
  "re_larger =
     Seq (Lit '' was larger than I expected, found '')
      (Seq (Rep Digit 1 None True)
        (Seq (Lit '' bytes extra whilst reading packet '') (Rep Digit 1 None True)))"

text \<open>\<^verbatim>\<open>"^login/0 \(.{2,3}?\)$"\<close>\<close>

definition vanillaRe :: rx where
  "vanillaRe = Seq (Lit ''login/0 ('') (Seq (Rep AnyChar 2 (Some 3) False) (Lit '')''))"

text \<open>\<^verbatim>\<open>"^\d+/\d+ \(class_\d*\)$"\<close>\<close>

definition fabricRe :: rx where
  "fabricRe =
     Seq (Rep Digit 1 None True)
      (Seq (Lit ''/'')
        (Seq (Rep Digit 1 None True)
          (Seq (Lit '' (class_'') (Seq (Rep Digit 0 None True) (Lit '')'')))))"

text \<open>\<open>DisconnectMsg.Fingerprint\<close> of \<open>fingerprint/fingerprint.go\<close>.\<close>

definition Fingerprint :: "DisconnectMsg \<Rightarrow> string \<times> fp_error option" where
  "Fingerprint m =
     (if Text m = ''This server is only compatible with Minecraft 1.13 and above.''
        then (Velocity, None)
      else if Text m = ''Connection throttled! Please wait before reconnecting.''
        then (Unknown, Some ConnectionThrottled)
      else if Translate m = [] then (Unknown, Some EmptyErrorTopic)
      else if Translate m \<noteq> ''disconnect.genericReason'' \<and> Translate m \<noteq> ''%s''
        then (Unknown, Some (UnfamiliarErrorTopic (Translate m)))
      else
        (case With m of
           [] \<Rightarrow> (Unknown, Some IncompleteDisconnectMessage)
         | w0 # _ \<Rightarrow>
             (let msg = ReplaceAll_to_end re_larger (TrimPrefix w0 netty_prefix) in
              if msg = ''login/0 (PacketLoginInStart)'' then (CraftBukkit, None)
              else if msg = ''login/0 (ServerboundHelloPacket)'' then (Forge, None)
              else if MatchString_whole vanillaRe msg then (Vanilla, None)
              else if MatchString_whole fabricRe msg then (Fabric, None)
              else (Unknown, None))))"

definition VersionMismatch :: "DisconnectMsg \<Rightarrow> bool \<times> string" where
  "VersionMismatch m =
     (if Translate m = ''multiplayer.disconnect.incompatible'' then
        (case With m of [] \<Rightarrow> (True, []) | w0 # _ \<Rightarrow> (True, w0))
      else (False, []))"

text \<open>The end of \<open>FingerprintWithProtocol\<close>, once \<open>NewDisconnectMsg\<close> has decoded the
  disconnect message:
  \<^verbatim>\<open>mismatch, version := msg.VersionMismatch()
  if mismatch { return Unknown, fmt.Errorf("version mismatch: %s", version) }
  return msg.Fingerprint()\<close>\<close>

definition classify_msg :: "DisconnectMsg \<Rightarrow> string \<times> fp_error option" where
  "classify_msg m =
     (case VersionMismatch m of
        (True, version) \<Rightarrow> (Unknown, Some (VersionMismatchError version))
      | (False, _) \<Rightarrow> Fingerprint m)"

text \<open>The second copy.
  \<^verbatim>\<open>" was larger than I expected, found (?:\d+|(?:login/)?serverbound/minecraft:hello)
   bytes extra whilst reading packet (?:\d+|serverbound/minecraft:hello)$"\<close>\<close>

definition re_larger_p2 :: rx where
  "re_larger_p2 =
     Seq (Lit '' was larger than I expected, found '')
      (Seq (Alt (Rep Digit 1 None True)
                (Seq (Alt (Lit ''login/'') (Lit [])) (Lit ''serverbound/minecraft:hello'')))
        (Seq (Lit '' bytes extra whilst reading packet '')
             (Alt (Rep Digit 1 None True) (Lit ''serverbound/minecraft:hello''))))"

text \<open>\<^verbatim>\<open>"^(login|\d+)/(serverbound/minecraft:hello|\d+) "\<close>\<close>

definition re_state_prefix_p2 :: rx where
  "re_state_prefix_p2 =
     Seq (Alt (Lit ''login'') (Rep Digit 1 None True))
      (Seq (Lit ''/'')
        (Seq (Alt (Lit ''serverbound/minecraft:hello'') (Rep Digit 1 None True)) (Lit '' '')))"

text \<open>\<^verbatim>\<open>"^\(.{2,3}?\)$"\<close> and \<^verbatim>\<open>"^\(class_\d*\)$"\<close>\<close>

definition vanillaRe_p2 :: rx where
  "vanillaRe_p2 = Seq (Lit ''('') (Seq (Rep AnyChar 2 (Some 3) False) (Lit '')''))"

definition fabricRe_p2 :: rx where
  "fabricRe_p2 = Seq (Lit ''(class_'') (Seq (Rep Digit 0 None True) (Lit '')''))"

definition Fingerprint_p2 :: "DisconnectMsg \<Rightarrow> string \<times> fp_error option" where
  "Fingerprint_p2 m =
     (if Text m = ''This server is only compatible with Minecraft 1.13 and above.''
        then (Velocity, None)
      else if Text m = ''Connection throttled! Please wait before reconnecting.''
        then (Unknown, Some ConnectionThrottled)
      else if Translate m = [] then (Unknown, Some EmptyErrorTopic)
      else if Translate m \<noteq> ''disconnect.genericReason'' \<and> Translate m \<noteq> ''%s''
        then (Unknown, Some (UnfamiliarErrorTopic (Translate m)))
      else
        (case With m of
           [] \<Rightarrow> (Unknown, Some IncompleteDisconnectMessage)
         | w0 # _ \<Rightarrow>
             (let msg = ReplaceAll_at_start re_state_prefix_p2
                          (ReplaceAll_to_end re_larger_p2 (TrimPrefix w0 netty_prefix)) in
              if msg = ''(PacketLoginInStart)'' then (CraftBukkit, None)
              else if msg = ''(ServerboundHelloPacket)'' then (Paper, None)
              else if MatchString_whole vanillaRe_p2 msg then (Vanilla, None)
              else if MatchString_whole fabricRe_p2 msg then (Fabric, None)
              else (Unknown, None))))"

definition VersionMismatch_p2 :: "DisconnectMsg \<Rightarrow> bool \<times> string" where
  "VersionMismatch_p2 m =
     (if Translate m = ''multiplayer.disconnect.incompatible''
         \<or> Translate m = ''multiplayer.disconnect.outdated_client'' then
        (case With m of [] \<Rightarrow> (True, []) | w0 # _ \<Rightarrow> (True, w0))
      else (False, []))"

definition classify_msg_p2 :: "DisconnectMsg \<Rightarrow> string \<times> fp_error option" where
  "classify_msg_p2 m =
     (case VersionMismatch_p2 m of
        (True, version) \<Rightarrow> (Unknown, Some (VersionMismatchError version))
      | (False, _) \<Rightarrow> Fingerprint_p2 m)"

text \<open>The example of the source comment in \<open>Fingerprint\<close> (Spigot 1.20.4, protocol 765).\<close>

definition spigot_reason :: string where
  "spigot_reason =
     ''Internal Exception: io.netty.handler.codec.DecoderException: java.io.IOException: Packet login/0 (PacketLoginInStart) was larger than I expected, found 1 bytes extra whilst reading packet 0''"


section \<open>Properties of the codec\<close>

declare PutUvarint_loop.simps [simp del]
declare ReadUvarint_loop.simps [simp del]
declare readBytes_loop.simps [simp del]
declare uvarint_bytes.simps [simp del]

subsection \<open>Varint encoding and decoding\<close>

lemma PutUvarint_loop_eq:
  "PutUvarint_loop cap x w =
     (if length w + length (uvarint_bytes x) \<le> cap then Inr (w @ uvarint_bytes x)
      else Inl (Panic IndexOutOfRange))"
proof (induction cap x w rule: PutUvarint_loop.induct)
  case (1 cap x w)
  show ?case
  proof (cases "0x80 \<le> x")
    case True
    then show ?thesis
      using "1.IH" by (subst PutUvarint_loop.simps, subst (1 2) uvarint_bytes.simps) auto
  next
    case False
    then show ?thesis
      by (subst PutUvarint_loop.simps, subst (1 2) uvarint_bytes.simps) auto
  qed
qed

lemma length_uvarint_bytes:
  "unat x < 2 ^ (7 * Suc k) \<Longrightarrow> length (uvarint_bytes x) \<le> Suc k"
proof (induction k arbitrary: x)
  case 0
  then have "\<not> 0x80 \<le> x" by (simp add: word_le_nat_alt)
  then show ?case by (subst uvarint_bytes.simps) simp
next
  case (Suc k)
  show ?case
  proof (cases "0x80 \<le> x")
    case True
    have "unat (drop_bit 7 x) = unat x div 2 ^ 7" by (simp add: drop_bit_eq_div unat_div)
    also have "\<dots> < 2 ^ (7 * Suc k)"
      using Suc.prems by (simp add: less_mult_imp_div_less power_add)
    finally have "length (uvarint_bytes (drop_bit 7 x)) \<le> Suc k" by (rule Suc.IH)
    with True show ?thesis by (subst uvarint_bytes.simps) simp
  next
    case False
    then show ?thesis by (subst uvarint_bytes.simps) simp
  qed
qed

lemma cont_byte_ge: "\<not> (b OR 0x80 :: byte) < 0x80"
proof -
  have "(0x80 :: byte) \<le> b OR 0x80" by (rule le_word_or1)
  then show ?thesis by simp
qed

lemma low_byte_lt: "\<not> 0x80 \<le> (x :: uint64) \<Longrightarrow> (ucast x :: byte) < 0x80"
  by (simp add: word_less_nat_alt word_le_nat_alt unsigned_ucast_eq take_bit_eq_mod)

lemma bit_127_int: "bit (127 :: int) n \<longleftrightarrow> n < 7"
proof -
  have e: "(127 :: int) = mask 7" by (simp add: mask_eq_exp_minus_1)
  show ?thesis unfolding e bit_mask_iff by simp
qed

lemma bit_128_int: "bit (128 :: int) n \<longleftrightarrow> n = 7"
proof -
  have e: "(128 :: int) = 2 ^ 7" by simp
  show ?thesis unfolding e bit_exp_iff by simp
qed

lemma lt_80_iff: "(b :: byte) < 0x80 \<longleftrightarrow> \<not> bit b 7"
proof -
  have "unat b < 2 ^ LENGTH(8)" by (rule unsigned_less)
  then have lt: "unat b < 256" by simp
  have d: "unat b div 128 = (if 128 \<le> unat b then 1 else 0)"
  proof (cases "128 \<le> unat b")
    case True
    with lt have "unat b div 128 = 1" by (intro div_nat_eqI) simp_all
    with True show ?thesis by simp
  next
    case False
    then show ?thesis by simp
  qed
  have "bit b 7 \<longleftrightarrow> bit (unat b) 7" by (simp add: bit_unsigned_iff)
  also have "\<dots> \<longleftrightarrow> odd (unat b div 128)" by (simp add: bit_iff_odd)
  also have "\<dots> \<longleftrightarrow> 128 \<le> unat b" by (simp add: d)
  finally have "bit b 7 \<longleftrightarrow> 128 \<le> unat b" .
  moreover have "b < 0x80 \<longleftrightarrow> unat b < 128" by (simp add: word_less_nat_alt)
  ultimately show ?thesis by linarith
qed

lemma and_80_zero_iff: "(b :: byte) AND 0x80 = 0 \<longleftrightarrow> b < 0x80"
proof -
  have "b AND 0x80 = 0 \<longleftrightarrow> (\<forall>n. \<not> bit (b AND 0x80) n)"
  proof
    assume "b AND 0x80 = 0"
    then show "\<forall>n. \<not> bit (b AND 0x80) n" by simp
  next
    assume "\<forall>n. \<not> bit (b AND 0x80) n"
    then show "b AND 0x80 = 0" by (intro bit_word_eqI) simp
  qed
  also have "\<dots> \<longleftrightarrow> \<not> bit b 7"
  proof
    assume "\<forall>n. \<not> bit (b AND 0x80) n"
    then have "\<not> bit (b AND 0x80) 7" by blast
    then show "\<not> bit b 7" by (simp add: bit_and_iff bit_128_int)
  next
    assume "\<not> bit b 7"
    then show "\<forall>n. \<not> bit (b AND 0x80) n" by (auto simp: bit_and_iff bit_128_int)
  qed
  finally show ?thesis by (simp add: lt_80_iff)
qed

lemma bit_low7:
  "bit (ucast ((b :: byte) AND 0x7F) :: 'a::len word) k \<longleftrightarrow> k < 7 \<and> k < LENGTH('a) \<and> bit b k"
  by (simp add: bit_word_ucast_iff bit_and_iff bit_127_int) auto

lemma bit_cont_byte:
  "bit ((ucast (v :: uint64) OR 0x80 :: byte) AND 0x7F) k \<longleftrightarrow> k < 7 \<and> bit v k"
  by (simp add: bit_word_ucast_iff bit_and_iff bit_or_iff bit_127_int bit_128_int) auto

lemma bit_or_80:
  "bit ((ucast (v :: uint64) :: byte) OR 0x80) k \<longleftrightarrow> (k < 8 \<and> bit v k) \<or> k = 7"
  by (simp add: bit_or_iff bit_word_ucast_iff bit_128_int) auto

lemma join7_64:
  "push_bit s (ucast ((ucast (v :: uint64) OR 0x80 :: byte) AND 0x7F) :: uint64)
     OR push_bit (s + 7) (drop_bit 7 v) = push_bit s v"
proof (rule bit_word_eqI)
  fix n assume "n < LENGTH(64)"
  then have n: "n < 64" by simp
  have c: "s \<le> n \<Longrightarrow> n - s < 7 \<or> (s + 7 \<le> n \<and> 7 + (n - (s + 7)) = n - s)" by linarith
  have "bit (push_bit s (ucast ((ucast v OR 0x80 :: byte) AND 0x7F) :: uint64)) n
        \<longleftrightarrow> s \<le> n \<and> n - s < 7 \<and> bit v (n - s)"
    using n by (simp add: bit_push_bit_iff bit_low7 bit_or_80 possible_bit_word) linarith
  moreover have "bit (push_bit (s + 7) (drop_bit 7 v)) n
        \<longleftrightarrow> s + 7 \<le> n \<and> bit v (7 + (n - (s + 7)))"
    using n by (simp add: bit_push_bit_iff bit_drop_bit_eq possible_bit_word)
  moreover have "bit (push_bit s v) n \<longleftrightarrow> s \<le> n \<and> bit v (n - s)"
    using n by (simp add: bit_push_bit_iff possible_bit_word)
  ultimately show "bit (push_bit s (ucast ((ucast v OR 0x80 :: byte) AND 0x7F) :: uint64)
     OR push_bit (s + 7) (drop_bit 7 v)) n = bit (push_bit s v) n"
    using c by (auto simp: bit_or_iff)
qed

lemma ucast_low_byte_64:
  "\<not> 0x80 \<le> (v :: uint64) \<Longrightarrow> (ucast (ucast v :: byte) :: uint64) = v"
proof -
  assume "\<not> 0x80 \<le> v"
  then have "unat v < 128" by (simp add: word_le_nat_alt)
  then have "unat (ucast (ucast v :: byte) :: uint64) = unat v"
    by (simp add: unsigned_ucast_eq take_bit_eq_mod unat_mod)
  then show ?thesis by (rule word_unat_eq_iff [THEN iffD2])
qed

lemma ReadUvarint_loop_enc:
  "i + length (uvarint_bytes v) \<le> 9 \<Longrightarrow>
   ReadUvarint_loop i x s (uvarint_bytes v @ rest) = (Inr (x OR push_bit s v), rest)"
proof (induction v arbitrary: i x s rule: uvarint_bytes.induct)
  case (1 v)
  show ?case
  proof (cases "0x80 \<le> v")
    case True
    have enc: "uvarint_bytes v = (ucast v OR 0x80) # uvarint_bytes (drop_bit 7 v)"
      using True by (subst uvarint_bytes.simps) simp
    with "1.prems" have b: "(i + 1) + length (uvarint_bytes (drop_bit 7 v)) \<le> 9" by simp
    then have i: "i < MaxVarintLen64" by (simp add: MaxVarintLen64_def)
    have "ReadUvarint_loop i x s (uvarint_bytes v @ rest) =
          ReadUvarint_loop (i + 1) (x OR push_bit s (ucast ((ucast v OR 0x80 :: byte) AND 0x7F)))
             (s + 7) (uvarint_bytes (drop_bit 7 v) @ rest)"
      using i by (subst ReadUvarint_loop.simps) (simp add: enc cont_byte_ge)
    also have "\<dots> = (Inr ((x OR push_bit s (ucast ((ucast v OR 0x80 :: byte) AND 0x7F)))
                   OR push_bit (s + 7) (drop_bit 7 v)), rest)"
      using "1.IH" [OF True b] .
    finally show ?thesis by (simp add: join7_64 or.assoc)
  next
    case False
    have enc: "uvarint_bytes v = [ucast v]" using False by (subst uvarint_bytes.simps) simp
    from "1.prems" have i: "i < MaxVarintLen64" "i \<noteq> MaxVarintLen64 - 1"
      by (simp_all add: MaxVarintLen64_def enc)
    show ?thesis
      using i False by (subst ReadUvarint_loop.simps)
         (simp add: enc low_byte_lt ucast_low_byte_64)
  qed
qed

lemma join7_32:
  "push_bit s (ucast ((ucast (v :: uint64) OR 0x80 :: byte) AND 0x7F) :: int32)
     OR push_bit (s + 7) (ucast (drop_bit 7 v)) = push_bit s (ucast v)"
proof (rule bit_word_eqI)
  fix n assume "n < LENGTH(32)"
  then have n: "n < 32" by simp
  have c: "s \<le> n \<Longrightarrow> n - s < 7 \<or> (s + 7 \<le> n \<and> 7 + (n - (s + 7)) = n - s)" by linarith
  have "bit (push_bit s (ucast ((ucast v OR 0x80 :: byte) AND 0x7F) :: int32)) n
        \<longleftrightarrow> s \<le> n \<and> n - s < 7 \<and> bit v (n - s)"
    using n by (simp add: bit_push_bit_iff bit_low7 bit_or_80 possible_bit_word) linarith
  moreover have "bit (push_bit (s + 7) (ucast (drop_bit 7 v) :: int32)) n
        \<longleftrightarrow> s + 7 \<le> n \<and> bit v (7 + (n - (s + 7)))"
    using n by (simp add: bit_push_bit_iff bit_drop_bit_eq bit_word_ucast_iff possible_bit_word)
       linarith
  moreover have "bit (push_bit s (ucast v :: int32)) n \<longleftrightarrow> s \<le> n \<and> bit v (n - s)"
    using n by (simp add: bit_push_bit_iff bit_word_ucast_iff possible_bit_word) linarith
  ultimately show "bit (push_bit s (ucast ((ucast v OR 0x80 :: byte) AND 0x7F) :: int32)
     OR push_bit (s + 7) (ucast (drop_bit 7 v))) n = bit (push_bit s (ucast v :: int32)) n"
    using c by (auto simp: bit_or_iff)
qed

lemma low_byte_and_7F:
  "\<not> 0x80 \<le> (v :: uint64) \<Longrightarrow> (ucast ((ucast v :: byte) AND 0x7F) :: int32) = ucast v"
proof (rule bit_word_eqI)
  fix n assume a: "\<not> 0x80 \<le> v" and "n < LENGTH(32)"
  then have "(ucast (ucast v :: byte) :: uint64) = v" by (simp add: ucast_low_byte_64)
  then have "bit v n = bit (ucast (ucast v :: byte) :: uint64) n" by simp
  also have "\<dots> \<longleftrightarrow> n < 8 \<and> bit v n" by (simp add: bit_word_ucast_iff) linarith
  finally have h: "bit v n \<Longrightarrow> n < 8" by simp
  from a have "(ucast v :: byte) < 0x80" by (rule low_byte_lt)
  then have "\<not> bit (ucast v :: byte) 7" by (simp add: lt_80_iff)
  then have h7: "\<not> bit v 7" by (simp add: bit_word_ucast_iff)
  have "n < 8 \<Longrightarrow> n < 7 \<or> n = 7" by linarith
  with h h7 show "bit (ucast ((ucast v :: byte) AND 0x7F) :: int32) n = bit (ucast v :: int32) n"
    by (auto simp: bit_and_iff bit_127_int bit_word_ucast_iff)
qed

lemma readVarInt_loop_enc:
  "shift + 7 * length (uvarint_bytes v) \<le> 35 \<Longrightarrow>
   readVarInt_loop num shift (uvarint_bytes v @ rest) =
     (Inr (num OR push_bit shift (ucast v)), rest)"
proof (induction v arbitrary: num shift rule: uvarint_bytes.induct)
  case (1 v)
  show ?case
  proof (cases "0x80 \<le> v")
    case True
    have enc: "uvarint_bytes v = (ucast v OR 0x80) # uvarint_bytes (drop_bit 7 v)"
      using True by (subst uvarint_bytes.simps) simp
    have l: "1 \<le> length (uvarint_bytes (drop_bit 7 v))"
      by (subst uvarint_bytes.simps) simp
    from "1.prems" enc have p: "shift + 7 * Suc (length (uvarint_bytes (drop_bit 7 v))) \<le> 35"
      by simp
    from p have b: "(shift + 7) + 7 * length (uvarint_bytes (drop_bit 7 v)) \<le> 35" by simp
    from b l have s: "\<not> 32 \<le> shift + 7" by linarith
    have c: "(ucast v OR 0x80 :: byte) AND 0x80 \<noteq> 0"
      by (simp add: and_80_zero_iff cont_byte_ge)
    have "readVarInt_loop num shift (uvarint_bytes v @ rest) =
          readVarInt_loop (num OR push_bit shift (ucast ((ucast v OR 0x80 :: byte) AND 0x7F)))
             (shift + 7) (uvarint_bytes (drop_bit 7 v) @ rest)"
      using s c by (simp add: enc Let_def)
    also have "\<dots> = (Inr ((num OR push_bit shift (ucast ((ucast v OR 0x80 :: byte) AND 0x7F)))
                   OR push_bit (shift + 7) (ucast (drop_bit 7 v))), rest)"
      using "1.IH" [OF True b] .
    finally show ?thesis by (simp add: join7_32 or.assoc)
  next
    case False
    have enc: "uvarint_bytes v = [ucast v]" using False by (subst uvarint_bytes.simps) simp
    have "(ucast v :: byte) AND 0x80 = 0"
      using False by (simp add: and_80_zero_iff low_byte_lt)
    then show ?thesis
      using False by (simp add: enc Let_def low_byte_and_7F)
  qed
qed

lemma nonneg_int32:
  assumes "0 \<le> sint (v :: int32)"
  shows scast_nonneg: "(scast v :: uint64) = ucast v"
    and unat_ucast_nonneg: "unat (ucast v :: uint64) = unat v"
    and uint_nonneg: "uint v = sint v"
    and ucast_ucast_32: "(ucast (ucast v :: uint64) :: int32) = v"
proof -
  have "sint v < 2 ^ (LENGTH(32) - 1)" by (rule sint_lt)
  then have lt: "sint v < 2 ^ 32" by simp
  have "uint v = take_bit LENGTH(32) (sint v)" by (rule uint_sint)
  also have "\<dots> = sint v" using assms lt by (simp add: take_bit_int_eq_self)
  finally have u: "uint v = sint v" .
  show "(scast v :: uint64) = ucast v" by (simp only: scast_eq ucast_eq u)
  have "unat v < 2 ^ LENGTH(32)" by (rule unsigned_less)
  then have "unat v < 2 ^ 64" by simp
  then show "unat (ucast v :: uint64) = unat v"
    by (simp add: unsigned_ucast_eq take_bit_nat_eq_self)
  show "uint v = sint v" by (rule u)
  show "(ucast (ucast v :: uint64) :: int32) = v"
    by (rule ucast_up_ucast_id) (simp add: is_up)
qed

lemma sint_word_of_int_32:
  "0 \<le> k \<Longrightarrow> k < 2 ^ 31 \<Longrightarrow> sint (word_of_int k :: int32) = k"
  by (simp add: sint_sbintrunc' signed_take_bit_int_eq_self)

lemma encodeVarInt_nonneg:
  assumes "0 \<le> sint v" and "sint v < 2 ^ (7 * Suc k)" and "k \<le> 4"
  shows "encodeVarInt v = Inr (uvarint_bytes (ucast v))"
    and "length (uvarint_bytes (ucast v :: uint64)) \<le> Suc k"
proof -
  from assms(1,2) have "uint v < 2 ^ (7 * Suc k)" by (simp only: uint_nonneg)
  then have "nat (uint v) < 2 ^ (7 * Suc k)" by (simp only: nat_less_numeral_power_cancel_iff)
  then have "unat v < 2 ^ (7 * Suc k)" by (simp only: unat_eq_nat_uint)
  then have "unat (ucast v :: uint64) < 2 ^ (7 * Suc k)"
    using assms(1) by (simp only: unat_ucast_nonneg)
  then show l: "length (uvarint_bytes (ucast v :: uint64)) \<le> Suc k"
    by (rule length_uvarint_bytes)
  with assms(3) have "length (uvarint_bytes (ucast v :: uint64)) \<le> 5" by simp
  then show "encodeVarInt v = Inr (uvarint_bytes (ucast v))"
    using assms(1)
    by (simp add: encodeVarInt_def PutUvarint_def PutUvarint_loop_eq MaxVarintLen32_def
        scast_nonneg)
qed

lemma ReadUvarint_enc32:
  assumes "0 \<le> sint (v :: int32)"
  shows "ReadVarInt \<lparr>ip_id = i, ip_reader = uvarint_bytes (ucast v) @ rest\<rparr>
           = (Inr v, \<lparr>ip_id = i, ip_reader = rest\<rparr>)"
proof -
  have "sint v < 2 ^ (LENGTH(32) - 1)" by (rule sint_lt)
  then have "sint v < 2 ^ (7 * Suc 4)" by simp
  with assms have "length (uvarint_bytes (ucast v :: uint64)) \<le> Suc 4"
    by (rule encodeVarInt_nonneg(2)) simp
  then have "0 + length (uvarint_bytes (ucast v :: uint64)) \<le> 9" by simp
  then have "ReadUvarint_loop 0 0 0 (uvarint_bytes (ucast v) @ rest)
               = (Inr (0 OR push_bit 0 (ucast v)), rest)"
    by (rule ReadUvarint_loop_enc)
  then show ?thesis using assms by (simp add: ReadVarInt_def ReadUvarint_def ucast_ucast_32)
qed

lemma readVarInt_enc32:
  assumes "0 \<le> sint (v :: int32)"
  shows "readVarInt (uvarint_bytes (ucast v) @ rest) = (Inr v, rest)"
proof -
  have "sint v < 2 ^ (LENGTH(32) - 1)" by (rule sint_lt)
  then have "sint v < 2 ^ (7 * Suc 4)" by simp
  with assms have "length (uvarint_bytes (ucast v :: uint64)) \<le> Suc 4"
    by (rule encodeVarInt_nonneg(2)) simp
  then have "0 + 7 * length (uvarint_bytes (ucast v :: uint64)) \<le> 35" by simp
  then have "readVarInt_loop 0 0 (uvarint_bytes (ucast v) @ rest)
               = (Inr (0 OR push_bit 0 (ucast (ucast v :: uint64))), rest)"
    by (rule readVarInt_loop_enc)
  then show ?thesis using assms by (simp add: readVarInt_def ucast_ucast_32)
qed

subsection \<open>Frames\<close>

lemma readBytes_loop_enough:
  assumes "length data \<le> len" and "len - length data \<le> length reader"
  shows "readBytes_loop reader len data
           = (Inr (data @ take (len - length data) reader), drop (len - length data) reader)"
proof (cases "length data < len")
  case True
  define k where "k = len - length data"
  from True assms have k: "0 < k" "k \<le> length reader" "length data + k = len"
    by (simp_all add: k_def)
  then have ne: "reader \<noteq> []" by auto
  have "readBytes_loop reader len data = readBytes_loop (drop k reader) len (data @ take k reader)"
    using True ne by (subst readBytes_loop.simps) (simp add: reader_Read_def k_def)
  also have "\<dots> = (Inr (data @ take k reader), drop k reader)"
    using k by (subst readBytes_loop.simps) (simp add: min_def)
  finally show ?thesis by (simp add: k_def)
next
  case False
  with assms show ?thesis by (subst readBytes_loop.simps) simp
qed

text \<open>The frame round trip for every packet id that is not negative: \<open>Build\<close> succeeds
  when the payload is within the limit, and \<open>NewInboundPacket\<close> on the built bytes (followed
  by anything) gives back the id, leaves exactly the body in the packet's reader, and
  consumes the frame and nothing more from the connection.\<close>

lemma frame_roundtrip:
  assumes id: "0 \<le> sint (op_id p)"
    and len: "int (length (uvarint_bytes (ucast (op_id p) :: uint64) @ op_body p)) \<le> MaxPacketLength"
    and dl: "deadline_ok c"
  shows "\<exists>frame. Build p = Inr frame \<and>
           NewInboundPacket (c\<lparr>inbound := frame @ rest\<rparr>)
             = \<lparr>outcome = Inr \<lparr>ip_id = op_id p, ip_reader = op_body p\<rparr>,
                conn_after = c\<lparr>inbound := rest\<rparr>,
                body_alloc = Some (int (length (uvarint_bytes (ucast (op_id p) :: uint64) @ op_body p)))\<rparr>"
proof -
  define idb where "idb = uvarint_bytes (ucast (op_id p) :: uint64)"
  define packet where "packet = idb @ op_body p"
  define n where "n = int (length packet)"
  define lv :: int32 where "lv = word_of_int n"
  have n: "0 \<le> n" "n \<le> 2097151"
    using len by (simp_all add: n_def packet_def idb_def MaxPacketLength_def)
  then have slv: "sint lv = n" unfolding lv_def by (intro sint_word_of_int_32) simp_all
  with n have lv0: "0 \<le> sint lv" by simp
  have encid: "encodeVarInt (op_id p) = Inr idb"
    unfolding idb_def using id
  proof (rule encodeVarInt_nonneg(1))
    have "sint (op_id p) < 2 ^ (LENGTH(32) - 1)" by (rule sint_lt)
    then show "sint (op_id p) < 2 ^ (7 * Suc 4)" by simp
  qed simp
  have enclen: "encodeVarInt lv = Inr (uvarint_bytes (ucast lv))"
    using lv0
  proof (rule encodeVarInt_nonneg(1))
    show "sint lv < 2 ^ (7 * Suc 4)" using slv n by simp
  qed simp
  have build: "Build p = Inr (uvarint_bytes (ucast lv) @ packet)"
  proof -
    have "Build p =
            (if int (length (idb @ op_body p)) > MaxPacketLength
             then Inl (PacketExceedsMax (int (length (idb @ op_body p)) - MaxPacketLength))
             else (case encodeVarInt (word_of_int (int (length (idb @ op_body p)))) of
                     Inl e \<Rightarrow> Inl e
                   | Inr lb \<Rightarrow> Inr (lb @ idb @ op_body p)))"
      by (simp only: Build_def encid sum.case Let_def)
    also have "\<dots> = (if n > 2097151 then Inl (PacketExceedsMax (n - 2097151))
             else (case encodeVarInt lv of Inl e \<Rightarrow> Inl e | Inr lb \<Rightarrow> Inr (lb @ packet)))"
      by (simp only: packet_def n_def lv_def MaxPacketLength_def)
    also have "\<dots> = Inr (uvarint_bytes (ucast lv) @ packet)"
      using n by (simp add: enclen)
    finally show ?thesis .
  qed
  have rv: "readVarInt (uvarint_bytes (ucast lv) @ packet @ rest) = (Inr lv, packet @ rest)"
    by (rule readVarInt_enc32 [OF lv0])
  have rf: "ReadFull (packet @ rest) (nat n) = (Inr packet, rest)"
    by (simp add: ReadFull_def n_def)
  have rid: "ReadVarInt \<lparr>ip_id = 0, ip_reader = packet\<rparr>
               = (Inr (op_id p), \<lparr>ip_id = 0, ip_reader = op_body p\<rparr>)"
    unfolding packet_def idb_def using id by (rule ReadUvarint_enc32)
  have "NewInboundPacket (c\<lparr>inbound := (uvarint_bytes (ucast lv) @ packet) @ rest\<rparr>)
          = \<lparr>outcome = Inr \<lparr>ip_id = op_id p, ip_reader = op_body p\<rparr>,
             conn_after = c\<lparr>inbound := rest\<rparr>, body_alloc = Some n\<rparr>"
    using dl n
    by (simp add: NewInboundPacket_def rv slv MaxPacketLength_def rf rid Let_def)
  with build show ?thesis by (simp add: n_def packet_def idb_def)
qed

text \<open>A negative \<open>int32\<close> never fits the five-byte buffer.\<close>

lemma length_uvarint_bytes_lower:
  "2 ^ (7 * k) \<le> unat x \<Longrightarrow> k < length (uvarint_bytes x)"
proof (induction k arbitrary: x)
  case 0
  show ?case by (subst uvarint_bytes.simps) simp
next
  case (Suc k)
  have "(2::nat) ^ 7 \<le> 2 ^ (7 * Suc k)" by (rule power_increasing) simp_all
  with Suc.prems have "128 \<le> unat x" by simp
  then have ge: "0x80 \<le> x" by (simp add: word_le_nat_alt)
  have "2 ^ (7 * k) * 2 ^ 7 \<le> unat x" using Suc.prems by (simp add: power_add)
  then have "2 ^ (7 * k) \<le> unat x div 2 ^ 7" by (simp add: less_eq_div_iff_mult_less_eq)
  also have "unat x div 2 ^ 7 = unat (drop_bit 7 x)" by (simp add: drop_bit_eq_div unat_div)
  finally have "k < length (uvarint_bytes (drop_bit 7 x))" by (rule Suc.IH)
  with ge show ?case by (subst uvarint_bytes.simps) simp
qed

lemma encodeVarInt_negative:
  assumes "sint v < 0"
  shows "encodeVarInt v = Inl (Panic IndexOutOfRange)"
proof -
  have "- (2 ^ (LENGTH(32) - 1)) \<le> sint v" by (rule sint_ge)
  then have lo: "- 2147483648 \<le> sint v" by simp
  have "uint (scast v :: uint64) = sint v mod 2 ^ LENGTH(64)"
    by (simp only: scast_eq uint_word_of_int)
  also have "\<dots> = sint v mod 18446744073709551616" by simp
  also have "\<dots> = (sint v + 18446744073709551616) mod 18446744073709551616"
    by (simp only: mod_add_self2)
  also have "\<dots> = sint v + 18446744073709551616"
    using assms lo by (intro mod_pos_pos_trivial) linarith+
  finally have "uint (scast v :: uint64) = sint v + 18446744073709551616" .
  with lo have "34359738368 \<le> uint (scast v :: uint64)" by linarith
  then have "nat 34359738368 \<le> nat (uint (scast v :: uint64))" by (rule nat_mono)
  then have "34359738368 \<le> unat (scast v :: uint64)" by (simp only: unat_eq_nat_uint nat_numeral)
  moreover have "(2::nat) ^ (7 * 5) = 34359738368" by simp
  ultimately have "2 ^ (7 * 5) \<le> unat (scast v :: uint64)" by (simp only:)
  then have "5 < length (uvarint_bytes (scast v :: uint64))" by (rule length_uvarint_bytes_lower)
  then show ?thesis
    by (simp add: encodeVarInt_def PutUvarint_def PutUvarint_loop_eq MaxVarintLen32_def)
qed

lemma Build_negative_id:
  "sint (op_id p) < 0 \<Longrightarrow> Build p = Inl (Panic IndexOutOfRange)"
  by (simp add: Build_def encodeVarInt_negative)

text \<open>
  C1 (frame round trip). The claim is made for every packet id. A packet id is an
  \<open>int32\<close>; \<open>encodeVarInt\<close> converts it with \<open>uint64(value)\<close>, which sign-extends, and
  hands \<open>binary.PutUvarint\<close> a buffer of \<open>MaxVarintLen32 = 5\<close> bytes. For a negative id
  the value needs ten bytes, the store \<open>buf[5]\<close> panics, and \<open>Build\<close> never returns a
  frame to decode (lemma \<open>Build_negative_id\<close> for every negative id; the theorem below
  is the case \<open>-1\<close>). For the ids that are not negative the round trip holds: lemma
  \<open>frame_roundtrip\<close>.
\<close>

theorem Build_negative_id_panics:
  "encodeVarInt (- 1) = Inl (Panic IndexOutOfRange)
   \<and> Build (NewOutboundPacket (- 1)) = Inl (Panic IndexOutOfRange)"
proof -
  have e: "encodeVarInt (- 1) = Inl (Panic IndexOutOfRange)" by code_simp
  then show ?thesis by (simp add: Build_def NewOutboundPacket_def)
qed

text \<open>Varint round trip, 32 bits: what \<open>WriteVarInt\<close> wrote for a non-negative \<open>n\<close> is
  read back as \<open>n\<close> by \<open>ReadVarInt\<close>.\<close>

lemma varint_roundtrip_32:
  assumes "0 \<le> sint n"
  shows "\<exists>p'. WriteVarInt (NewOutboundPacket i) n = Inr p' \<and>
           ReadVarInt \<lparr>ip_id = j, ip_reader = op_body p' @ rest\<rparr>
             = (Inr n, \<lparr>ip_id = j, ip_reader = rest\<rparr>)"
proof -
  have "sint n < 2 ^ (LENGTH(32) - 1)" by (rule sint_lt)
  then have b: "sint n < 2 ^ (7 * Suc 4)" by simp
  have "encodeVarInt n = Inr (uvarint_bytes (ucast n))"
    using assms b by (rule encodeVarInt_nonneg(1)) simp
  then have "WriteVarInt (NewOutboundPacket i) n
               = Inr \<lparr>op_id = i, op_body = uvarint_bytes (ucast n)\<rparr>"
    by (simp add: WriteVarInt_def encodeVarInt_def NewOutboundPacket_def WriteBytes_def)
  then show ?thesis using ReadUvarint_enc32 [OF assms, of j rest] by simp
qed

text \<open>
  C2 (varint round trip). The 32-bit half holds (lemma \<open>varint_roundtrip_32\<close>). The 64-bit
  half does not: \<open>ReadVarLong\<close> is documented to read a variable-length 64-bit integer but
  calls \<open>ReadVarInt\<close>, which cuts the decoded value down to an \<open>int32\<close>. \<open>WriteVarLong\<close> of
  \<open>2147483648\<close> writes \<open>80 80 80 80 08\<close>, and \<open>ReadVarLong\<close> reads \<open>-2147483648\<close> from
  these bytes.
\<close>

theorem ReadVarLong_truncates:
  "WriteVarLong (NewOutboundPacket 0) 0x80000000
     = Inr \<lparr>op_id = 0, op_body = [0x80, 0x80, 0x80, 0x80, 0x08]\<rparr>
   \<and> ReadVarLong \<lparr>ip_id = 0, ip_reader = [0x80, 0x80, 0x80, 0x80, 0x08]\<rparr>
     = (Inr (- 0x80000000), \<lparr>ip_id = 0, ip_reader = []\<rparr>)
   \<and> sint (0x80000000 :: int64) = 2147483648
   \<and> sint (- 0x80000000 :: int64) = - 2147483648"
  by (simp add: WriteVarLong_def PutUvarint_def MaxVarintLen64_def PutUvarint_loop.simps
      NewOutboundPacket_def WriteBytes_def ReadVarLong_def ReadVarInt_def ReadUvarint_def
      ReadUvarint_loop.simps)

text \<open>
  C3 (inbound frame length bound). Whatever bytes encode the declared length: when
  \<open>readVarInt\<close> decodes it to 2,097,151 the body buffer of that size is allocated, and
  if the connection holds that many further bytes they are read (and no more) and the
  packet is decoded from them; when it decodes to 2,097,152 \<open>NewInboundPacket\<close> returns
  the too-long error with no buffer allocated and the connection left just after the
  length varint.
\<close>

theorem NewInboundPacket_length_boundary:
  assumes dl: "deadline_ok c"
    and rv: "readVarInt (inbound c) = (Inr uLength, rest)"
  shows "(sint uLength = 2097151 \<longrightarrow>
            body_alloc (NewInboundPacket c) = Some 2097151
            \<and> (2097151 \<le> length rest \<longrightarrow>
                 inbound (conn_after (NewInboundPacket c)) = drop 2097151 rest
                 \<and> (\<forall>v body'. ReadUvarint (take 2097151 rest) = (Inr v, body') \<longrightarrow>
                       outcome (NewInboundPacket c)
                         = Inr \<lparr>ip_id = ucast v, ip_reader = body'\<rparr>)))
       \<and> (sint uLength = 2097152 \<longrightarrow>
            NewInboundPacket c
              = \<lparr>outcome = Inl (ReceivedPacketTooLong 2097152),
                 conn_after = c\<lparr>inbound := rest\<rparr>, body_alloc = None\<rparr>)"
proof (intro conjI impI allI)
  assume "sint uLength = 2097152"
  then show "NewInboundPacket c
      = \<lparr>outcome = Inl (ReceivedPacketTooLong 2097152),
         conn_after = c\<lparr>inbound := rest\<rparr>, body_alloc = None\<rparr>"
    using dl rv by (simp add: NewInboundPacket_def Let_def MaxPacketLength_def)
next
  assume s: "sint uLength = 2097151"
  show "body_alloc (NewInboundPacket c) = Some 2097151"
    using dl rv s
    by (simp add: NewInboundPacket_def Let_def MaxPacketLength_def ReadFull_def
        split: prod.splits sum.splits)
next
  assume s: "sint uLength = 2097151" and l: "2097151 \<le> length rest"
  show "inbound (conn_after (NewInboundPacket c)) = drop 2097151 rest"
    using dl rv s l
    by (simp add: NewInboundPacket_def Let_def MaxPacketLength_def ReadFull_def
        split: prod.splits sum.splits)
next
  fix v body'
  assume s: "sint uLength = 2097151" and l: "2097151 \<le> length rest"
    and ru: "ReadUvarint (take 2097151 rest) = (Inr v, body')"
  show "outcome (NewInboundPacket c) = Inr \<lparr>ip_id = ucast v, ip_reader = body'\<rparr>"
    using dl rv s l ru
    by (simp add: NewInboundPacket_def Let_def MaxPacketLength_def ReadFull_def ReadVarInt_def)
qed

theorem NewInboundPacket_length_boundary_witness:
  "body_alloc (NewInboundPacket \<lparr>inbound = [0xFF, 0xFF, 0x7F] @ 0x05 # replicate 2097150 0x2A,
       sent = [], wr_budget = 0, deadline_ok = True\<rparr>) = Some 2097151
   \<and> inbound (conn_after (NewInboundPacket
        \<lparr>inbound = [0xFF, 0xFF, 0x7F] @ 0x05 # replicate 2097150 0x2A,
         sent = [], wr_budget = 0, deadline_ok = True\<rparr>)) = []
   \<and> outcome (NewInboundPacket \<lparr>inbound = [0xFF, 0xFF, 0x7F] @ 0x05 # replicate 2097150 0x2A,
       sent = [], wr_budget = 0, deadline_ok = True\<rparr>)
       = Inr \<lparr>ip_id = 5, ip_reader = replicate 2097150 0x2A\<rparr>
   \<and> NewInboundPacket \<lparr>inbound = [0x80, 0x80, 0x80, 0x01, 0x07], sent = [], wr_budget = 0,
         deadline_ok = True\<rparr>
       = \<lparr>outcome = Inl (ReceivedPacketTooLong 2097152),
          conn_after = \<lparr>inbound = [0x07], sent = [], wr_budget = 0, deadline_ok = True\<rparr>,
          body_alloc = None\<rparr>"
proof -
  let ?c1 = "\<lparr>inbound = [0xFF, 0xFF, 0x7F] @ 0x05 # replicate 2097150 0x2A,
       sent = [], wr_budget = 0, deadline_ok = True\<rparr>"
  let ?c2 = "\<lparr>inbound = [0x80, 0x80, 0x80, 0x01, 0x07], sent = [], wr_budget = 0,
         deadline_ok = True\<rparr>"
  have r1: "readVarInt (inbound ?c1) = (Inr 2097151, 0x05 # replicate 2097150 0x2A)"
    by (simp add: readVarInt_def Let_def)
  have r2: "readVarInt (inbound ?c2) = (Inr 2097152, [0x07])"
    by (simp add: readVarInt_def Let_def)
  have u: "ReadUvarint (take 2097151 (0x05 # replicate 2097150 0x2A))
             = (Inr 5, replicate 2097150 0x2A)"
    by (simp add: ReadUvarint_def ReadUvarint_loop.simps MaxVarintLen64_def)
  have d1: "deadline_ok ?c1" and d2: "deadline_ok ?c2" by simp_all
  have s1: "sint (2097151 :: int32) = 2097151" and s2: "sint (2097152 :: int32) = 2097152"
    by simp_all
  have l: "2097151 \<le> length (0x05 # replicate 2097150 (0x2A :: byte))" by simp
  from NewInboundPacket_length_boundary [OF d1 r1] s1 l u
  have a: "body_alloc (NewInboundPacket ?c1) = Some 2097151
      \<and> inbound (conn_after (NewInboundPacket ?c1)) = drop 2097151 (0x05 # replicate 2097150 0x2A)
      \<and> outcome (NewInboundPacket ?c1) = Inr \<lparr>ip_id = ucast (5 :: uint64), ip_reader = replicate 2097150 0x2A\<rparr>"
    by blast
  from NewInboundPacket_length_boundary [OF d2 r2] s2
  have b: "NewInboundPacket ?c2
       = \<lparr>outcome = Inl (ReceivedPacketTooLong 2097152),
          conn_after = ?c2\<lparr>inbound := [0x07]\<rparr>, body_alloc = None\<rparr>"
    by blast
  from a b show ?thesis by simp
qed

subsection \<open>Strings\<close>

lemma varint_32767: "PutUvarint MaxVarintLen32 32767 = Inr [0xFF, 0xFF, 0x01]"
  by code_simp

text \<open>
  C4 (string length bound on both paths). \<open>WriteString\<close> appends the length varint
  \<open>FF FF 01\<close> and the bytes for every string of exactly 32,767 bytes, and for a string of
  32,768 bytes it returns the string-too-long error and leaves the packet as it was: no
  byte has been written. \<open>ReadString\<close>, once \<open>ReadVarInt\<close> has decoded the length prefix: with the prefix
  32,767 and that many bytes left in the packet it returns them; with a prefix above
  32,767 it returns the string-too-long error and the packet's reader stands just after
  the prefix, so the check comes before any string byte is read.
\<close>

theorem string_length_bound:
  "(length str = 32767 \<longrightarrow>
      WriteString p str = (None, p\<lparr>op_body := op_body p @ [0xFF, 0xFF, 0x01] @ str\<rparr>))
   \<and> (length str = 32768 \<longrightarrow> WriteString p str = (Some StringTooLong, p))
   \<and> (ReadVarInt q = (Inr n, q') \<longrightarrow>
        (sint n = 32767 \<and> 32767 \<le> length (ip_reader q') \<longrightarrow>
           ReadString q = (Inr (take 32767 (ip_reader q')),
                           q'\<lparr>ip_reader := drop 32767 (ip_reader q')\<rparr>))
        \<and> (32767 < sint n \<longrightarrow>
           ReadString q = (Inl (ReceivedStringTooLong (sint n)), q')))"
proof (intro conjI impI)
  assume "length str = 32767"
  then show "WriteString p str = (None, p\<lparr>op_body := op_body p @ [0xFF, 0xFF, 0x01] @ str\<rparr>)"
    by (simp add: WriteString_def Let_def MaxStringLength_def WriteVarInt_def varint_32767
        WriteBytes_def)
next
  assume "length str = 32768"
  then show "WriteString p str = (Some StringTooLong, p)"
    by (simp add: WriteString_def Let_def MaxStringLength_def)
next
  assume "ReadVarInt q = (Inr n, q')" and "sint n = 32767 \<and> 32767 \<le> length (ip_reader q')"
  then show "ReadString q = (Inr (take 32767 (ip_reader q')),
                           q'\<lparr>ip_reader := drop 32767 (ip_reader q')\<rparr>)"
    by (simp add: ReadString_def Let_def MaxStringLength_def ReadBytes_def readBytes_def
        readBytes_loop_enough)
next
  assume "ReadVarInt q = (Inr n, q')" and "32767 < sint n"
  then show "ReadString q = (Inl (ReceivedStringTooLong (sint n)), q')"
    by (simp add: ReadString_def Let_def MaxStringLength_def)
qed

theorem string_length_bound_witness:
  "WriteString (NewOutboundPacket 0) (replicate 32767 0x41)
      = (None, \<lparr>op_id = 0, op_body = [0xFF, 0xFF, 0x01] @ replicate 32767 0x41\<rparr>)
   \<and> WriteString \<lparr>op_id = 0, op_body = [0x2F]\<rparr> (replicate 32768 0x41)
      = (Some StringTooLong, \<lparr>op_id = 0, op_body = [0x2F]\<rparr>)
   \<and> ReadString \<lparr>ip_id = 0, ip_reader = [0xFF, 0xFF, 0x01] @ replicate 32767 0x41\<rparr>
      = (Inr (replicate 32767 0x41), \<lparr>ip_id = 0, ip_reader = []\<rparr>)
   \<and> ReadString \<lparr>ip_id = 0, ip_reader = [0x80, 0x80, 0x02] @ replicate 32768 0x41\<rparr>
      = (Inl (ReceivedStringTooLong 32768), \<lparr>ip_id = 0, ip_reader = replicate 32768 0x41\<rparr>)"
proof -
  let ?q1 = "\<lparr>ip_id = 0, ip_reader = [0xFF, 0xFF, 0x01] @ replicate 32767 0x41\<rparr>"
  let ?q2 = "\<lparr>ip_id = 0, ip_reader = [0x80, 0x80, 0x02] @ replicate 32768 0x41\<rparr>"
  have r1: "ReadVarInt ?q1 = (Inr 32767, \<lparr>ip_id = 0, ip_reader = replicate 32767 0x41\<rparr>)"
    by (simp add: ReadVarInt_def ReadUvarint_def ReadUvarint_loop.simps MaxVarintLen64_def)
  have r2: "ReadVarInt ?q2 = (Inr 32768, \<lparr>ip_id = 0, ip_reader = replicate 32768 0x41\<rparr>)"
    by (simp add: ReadVarInt_def ReadUvarint_def ReadUvarint_loop.simps MaxVarintLen64_def)
  have w1: "WriteString (NewOutboundPacket 0) (replicate 32767 0x41)
      = (None, \<lparr>op_id = 0, op_body = [0xFF, 0xFF, 0x01] @ replicate 32767 0x41\<rparr>)"
    using string_length_bound [of "replicate 32767 0x41" "NewOutboundPacket 0"]
    by (simp add: NewOutboundPacket_def)
  have w2: "WriteString \<lparr>op_id = 0, op_body = [0x2F]\<rparr> (replicate 32768 0x41)
      = (Some StringTooLong, \<lparr>op_id = 0, op_body = [0x2F]\<rparr>)"
    using string_length_bound [of "replicate 32768 0x41" "\<lparr>op_id = 0, op_body = [0x2F]\<rparr>"]
    by simp
  have q1: "ReadString ?q1 = (Inr (replicate 32767 0x41), \<lparr>ip_id = 0, ip_reader = []\<rparr>)"
    using string_length_bound [of "[]" "NewOutboundPacket 0" ?q1 32767
        "\<lparr>ip_id = 0, ip_reader = replicate 32767 0x41\<rparr>"] r1
    by simp
  have q2: "ReadString ?q2
      = (Inl (ReceivedStringTooLong 32768), \<lparr>ip_id = 0, ip_reader = replicate 32768 0x41\<rparr>)"
    using string_length_bound [of "[]" "NewOutboundPacket 0" ?q2 32768
        "\<lparr>ip_id = 0, ip_reader = replicate 32768 0x41\<rparr>"] r2
    by simp
  from w1 w2 q1 q2 show ?thesis by blast
qed

subsection \<open>Bounded varint reads\<close>

lemma readVarInt_loop_all_continue:
  assumes "\<forall>b\<in>set bs. b AND 0x80 \<noteq> 0" and "bs \<noteq> []"
    and "32 \<le> shift + 7 * length bs" and "shift + 7 * (length bs - 1) < 32"
  shows "readVarInt_loop num shift (bs @ rest) = (Inl VarIntTooLong, rest)"
  using assms
proof (induction bs arbitrary: num shift)
  case Nil
  then show ?case by simp
next
  case (Cons b bs)
  from Cons.prems(1) have c: "b AND 0x80 \<noteq> 0" and rest: "\<forall>b\<in>set bs. b AND 0x80 \<noteq> 0"
    by simp_all
  show ?case
  proof (cases "32 \<le> shift + 7")
    case True
    with Cons.prems(4) have "bs = []" by (cases bs) simp_all
    with True c show ?thesis by (simp add: Let_def)
  next
    case False
    with Cons.prems(3) have ne: "bs \<noteq> []" by (cases bs) simp_all
    then have l: "1 \<le> length bs" by (cases bs) simp_all
    from Cons.prems(3) have a: "32 \<le> (shift + 7) + 7 * length bs" by simp
    from Cons.prems(4) l have b: "(shift + 7) + 7 * (length bs - 1) < 32" by simp
    have "readVarInt_loop (num OR push_bit shift (ucast (b AND 0x7F))) (shift + 7) (bs @ rest)
            = (Inl VarIntTooLong, rest)"
      using rest ne a b by (rule Cons.IH)
    with False c show ?thesis by (simp add: Let_def)
  qed
qed

lemma ReadUvarint_loop_all_continue:
  assumes "\<forall>b\<in>set bs. b AND 0x80 \<noteq> 0" and "i + length bs = 10"
  shows "ReadUvarint_loop i x s (bs @ rest) = (Inl binary_errOverflow, rest)"
  using assms
proof (induction bs arbitrary: i x s)
  case Nil
  then show ?case by (subst ReadUvarint_loop.simps) (simp add: MaxVarintLen64_def)
next
  case (Cons b bs)
  from Cons.prems(1) have "b AND 0x80 \<noteq> 0" by simp
  then have c: "\<not> b < 0x80" by (simp add: and_80_zero_iff)
  from Cons.prems have i: "i < MaxVarintLen64" and n: "(i + 1) + length bs = 10"
    and rest: "\<forall>b\<in>set bs. b AND 0x80 \<noteq> 0"
    by (simp_all add: MaxVarintLen64_def)
  have "ReadUvarint_loop (i + 1) (x OR push_bit s (ucast (b AND 0x7F))) (s + 7) (bs @ rest)
          = (Inl binary_errOverflow, rest)"
    using rest n by (rule Cons.IH)
  with i c show ?case by (subst ReadUvarint_loop.simps) simp
qed

text \<open>
  The bounds that the two readers have: the frame-length read \<open>readVarInt\<close> fails with
  the varint-too-long error on every input whose first five bytes all have the
  continuation bit set, having consumed exactly these five bytes; \<open>ReadVarInt\<close> of a
  packet fails with the library's overflow error only when the first ten bytes all have
  the continuation bit set, having consumed exactly these ten bytes.
\<close>

lemma varint_reads_bounded:
  "((\<forall>b\<in>set bs. b AND 0x80 \<noteq> 0) \<and> length bs = 5 \<longrightarrow>
       readVarInt (bs @ rest) = (Inl VarIntTooLong, rest))
   \<and> ((\<forall>b\<in>set bs. b AND 0x80 \<noteq> 0) \<and> length bs = 10 \<longrightarrow>
       ReadVarInt \<lparr>ip_id = i, ip_reader = bs @ rest\<rparr>
         = (Inl binary_errOverflow, \<lparr>ip_id = i, ip_reader = rest\<rparr>))"
proof (intro conjI impI)
  assume a: "(\<forall>b\<in>set bs. b AND 0x80 \<noteq> 0) \<and> length bs = 5"
  then have "bs \<noteq> []" by auto
  with a show "readVarInt (bs @ rest) = (Inl VarIntTooLong, rest)"
    unfolding readVarInt_def by (intro readVarInt_loop_all_continue) simp_all
next
  assume a: "(\<forall>b\<in>set bs. b AND 0x80 \<noteq> 0) \<and> length bs = 10"
  then have "ReadUvarint_loop 0 0 0 (bs @ rest) = (Inl binary_errOverflow, rest)"
    by (intro ReadUvarint_loop_all_continue) simp_all
  then show "ReadVarInt \<lparr>ip_id = i, ip_reader = bs @ rest\<rparr>
         = (Inl binary_errOverflow, \<lparr>ip_id = i, ip_reader = rest\<rparr>)"
    by (simp add: ReadVarInt_def ReadUvarint_def)
qed

lemma varint_reads_bounded_example:
  "readVarInt ([0x80, 0xFF, 0x81, 0x80, 0xFF] @ [0x00, 0x2A]) = (Inl VarIntTooLong, [0x00, 0x2A])
   \<and> ReadVarInt \<lparr>ip_id = 0,
        ip_reader = [0x80, 0x80, 0x80, 0x80, 0x80, 0x80, 0x80, 0x80, 0x80, 0x80] @ [0x00]\<rparr>
        = (Inl binary_errOverflow, \<lparr>ip_id = 0, ip_reader = [0x00]\<rparr>)"
proof -
  have "readVarInt ([0x80, 0xFF, 0x81, 0x80, 0xFF] @ [0x00, 0x2A])
          = (Inl VarIntTooLong, [0x00, 0x2A])"
    using varint_reads_bounded [of "[0x80, 0xFF, 0x81, 0x80, 0xFF]" "[0x00, 0x2A]"]
    by simp
  moreover have "ReadVarInt \<lparr>ip_id = 0,
        ip_reader = [0x80, 0x80, 0x80, 0x80, 0x80, 0x80, 0x80, 0x80, 0x80, 0x80] @ [0x00]\<rparr>
        = (Inl binary_errOverflow, \<lparr>ip_id = 0, ip_reader = [0x00]\<rparr>)"
    using varint_reads_bounded
      [of "[0x80, 0x80, 0x80, 0x80, 0x80, 0x80, 0x80, 0x80, 0x80, 0x80]" "[0x00]" 0]
    by simp
  ultimately show ?thesis by blast
qed

text \<open>
  C5 (bounded varint iteration). The claim is made for every varint read: an input whose
  first five bytes all have the continuation bit set makes the read fail, without
  further bytes being consumed. The frame-length reader \<open>readVarInt\<close> does so. \<open>ReadVarInt\<close>
  of a packet, documented to read a variable-length 32-bit integer, hands the bytes to
  \<open>binary.ReadUvarint\<close>, the 64-bit decoder with a bound of \<open>MaxVarintLen64 = 10\<close> bytes:
  on \<open>80 80 80 80 80 00\<close> it consumes the sixth byte and returns 0 with no error, where
  \<open>readVarInt\<close> on the same bytes fails after the fifth.
\<close>

theorem ReadVarInt_reads_past_five_bytes:
  "ReadVarInt \<lparr>ip_id = 0, ip_reader = [0x80, 0x80, 0x80, 0x80, 0x80, 0x00, 0x2A]\<rparr>
     = (Inr 0, \<lparr>ip_id = 0, ip_reader = [0x2A]\<rparr>)
   \<and> readVarInt [0x80, 0x80, 0x80, 0x80, 0x80, 0x00, 0x2A] = (Inl VarIntTooLong, [0x00, 0x2A])"
  by (simp add: ReadVarInt_def ReadUvarint_def ReadUvarint_loop.simps MaxVarintLen64_def
      readVarInt_def Let_def)

subsection \<open>Totality of the inbound decoder\<close>

text \<open>A body buffer is never larger than 2,097,151 bytes.\<close>

lemma NewInboundPacket_alloc_bounded:
  "body_alloc (NewInboundPacket c) = Some n \<Longrightarrow> 0 \<le> n \<and> n \<le> 2097151"
  by (auto simp: NewInboundPacket_def Let_def MaxPacketLength_def
      split: if_splits prod.splits sum.splits)

text \<open>
  C10 (inbound decoder totality). The claim asks that \<open>NewInboundPacket\<close> returns a packet
  or an error on every byte stream and never panics. On the five length bytes
  \<open>FF FF FF FF 0F\<close> the hand-written \<open>readVarInt\<close> yields the \<open>int32\<close> value \<open>-1\<close>; the
  check \<open>length > MaxPacketLength\<close> lets it pass, and \<open>make([]byte, -1)\<close> panics. The
  sibling \<open>readBytes\<close> guards against a negative length; \<open>NewInboundPacket\<close> does not.
\<close>

theorem NewInboundPacket_negative_length_panics:
  "readVarInt [0xFF, 0xFF, 0xFF, 0xFF, 0x0F] = (Inr (- 1), [])
   \<and> outcome (NewInboundPacket \<lparr>inbound = [0xFF, 0xFF, 0xFF, 0xFF, 0x0F], sent = [],
          wr_budget = 0, deadline_ok = True\<rparr>) = Inl (Panic MakesliceLenOutOfRange)"
  by (simp add: NewInboundPacket_def readVarInt_def Let_def MaxPacketLength_def)


section \<open>Properties of the client\<close>

lemma Uint64_PutUint64: "Uint64 (PutUint64 v) = v"
proof (rule bit_word_eqI)
  fix n assume "n < LENGTH(64)"
  then have n: "n < 64" by simp
  have split: "n < 8 \<or> (8 \<le> n \<and> n < 16) \<or> (16 \<le> n \<and> n < 24) \<or> (24 \<le> n \<and> n < 32)
      \<or> (32 \<le> n \<and> n < 40) \<or> (40 \<le> n \<and> n < 48) \<or> (48 \<le> n \<and> n < 56) \<or> (56 \<le> n \<and> n < 64)"
    using n by linarith
  have b: "\<And>k m. bit (push_bit k (ucast (ucast (drop_bit k v) :: byte) :: uint64)) m
      \<longleftrightarrow> k \<le> m \<and> m < k + 8 \<and> m < 64 \<and> bit v m"
    by (auto simp: bit_push_bit_iff bit_word_ucast_iff bit_drop_bit_eq possible_bit_word)
  have b0: "\<And>m. bit (ucast (ucast v :: byte) :: uint64) m \<longleftrightarrow> m < 8 \<and> bit v m"
    by (auto simp: bit_word_ucast_iff)
  show "bit (Uint64 (PutUint64 v)) n = bit v n"
    using split n by (auto simp: Uint64_def PutUint64_def bit_or_iff b b0)
qed

lemma uvarint_bytes_small: "\<not> 0x80 \<le> x \<Longrightarrow> uvarint_bytes x = [ucast x]"
  by (subst uvarint_bytes.simps) simp

lemma Build_nonneg:
  assumes "0 \<le> sint (op_id p)"
    and "int (length (uvarint_bytes (ucast (op_id p) :: uint64) @ op_body p)) \<le> MaxPacketLength"
  shows "\<exists>frame. Build p = Inr frame"
  using frame_roundtrip [OF assms, of "\<lparr>inbound = [], sent = [], wr_budget = 0, deadline_ok = True\<rparr>" "[]"]
  by auto

lemma client_Write_ok:
  assumes "conn c = Some k" and "0 < wr_budget k" and "Build p = Inr frame"
  shows "client_Write p c
           = (None, c\<lparr>conn := Some (k\<lparr>sent := sent k @ [frame], wr_budget := wr_budget k - 1\<rparr>)\<rparr>)"
  using assms by (simp add: client_Write_def Write_def conn_Write_def)

lemma connect_Idle:
  assumes "state c = Idle"
    and "net_dial w (addr (if use_srv c then c\<lparr>addr := net_resolve w (addr c)\<rparr> else c)) = Some k"
  shows "connect w c
           = (None, (if use_srv c then c\<lparr>addr := net_resolve w (addr c)\<rparr> else c)
                      \<lparr>conn := Some k, state := Connected\<rparr>)"
  using assms by (simp add: connect_def Let_def)

lemma sendHandshake_ok:
  assumes k: "conn c = Some k" "0 < wr_budget k"
    and pr: "0 \<le> sint (protocol c)" and st: "0 \<le> sint st"
    and h: "length (Host (addr c)) \<le> 32767"
  shows "\<exists>hs. Build \<lparr>op_id = HandshakeID, op_body = handshake_body c st\<rparr> = Inr hs
           \<and> sendHandshake c st
               = (None, c\<lparr>conn := Some (k\<lparr>sent := sent k @ [hs], wr_budget := wr_budget k - 1\<rparr>),
                          state := HandshakeComplete\<rparr>)"
proof -
  define hl :: int32 where "hl = word_of_nat (length (Host (addr c)))"
  have b31: "\<And>v :: int32. sint v < 2 ^ (7 * Suc 4)"
  proof -
    fix v :: int32
    have "sint v < 2 ^ (LENGTH(32) - 1)" by (rule sint_lt)
    then show "sint v < 2 ^ (7 * Suc 4)" by simp
  qed
  have shl: "sint hl = int (length (Host (addr c)))"
    using h sint_word_of_int_32 [of "int (length (Host (addr c)))"] by (simp add: hl_def)
  then have hl0: "0 \<le> sint hl" by simp
  have e1: "PutUvarint MaxVarintLen32 (scast (protocol c)) = Inr (uvarint_bytes (ucast (protocol c)))"
    using encodeVarInt_nonneg(1) [OF pr b31] by (simp add: encodeVarInt_def)
  have e2: "PutUvarint MaxVarintLen32 (scast hl) = Inr (uvarint_bytes (ucast hl))"
    using encodeVarInt_nonneg(1) [OF hl0 b31] by (simp add: encodeVarInt_def)
  have e3: "PutUvarint MaxVarintLen32 (scast st) = Inr (uvarint_bytes (ucast st))"
    using encodeVarInt_nonneg(1) [OF st b31] by (simp add: encodeVarInt_def)
  have l1: "length (uvarint_bytes (ucast (protocol c) :: uint64)) \<le> Suc 4"
    using encodeVarInt_nonneg(2) [OF pr b31] by simp
  have l2: "length (uvarint_bytes (ucast hl :: uint64)) \<le> Suc 4"
    using encodeVarInt_nonneg(2) [OF hl0 b31] by simp
  have l3: "length (uvarint_bytes (ucast st :: uint64)) \<le> Suc 4"
    using encodeVarInt_nonneg(2) [OF st b31] by simp
  have id0: "uvarint_bytes (ucast HandshakeID :: uint64) = [0]"
    by (simp add: HandshakeID_def uvarint_bytes_small)
  have "\<exists>hs. Build \<lparr>op_id = HandshakeID, op_body = handshake_body c st\<rparr> = Inr hs"
  proof (rule Build_nonneg)
    show "0 \<le> sint (op_id \<lparr>op_id = HandshakeID, op_body = handshake_body c st\<rparr>)"
      by (simp add: HandshakeID_def)
    show "int (length (uvarint_bytes (ucast (op_id \<lparr>op_id = HandshakeID, op_body = handshake_body c st\<rparr>) :: uint64)
             @ op_body \<lparr>op_id = HandshakeID, op_body = handshake_body c st\<rparr>)) \<le> MaxPacketLength"
      using l1 l2 l3 h
      by (simp add: id0 handshake_body_def hl_def [symmetric] PutUint16_def MaxPacketLength_def)
  qed
  then obtain hs where hs: "Build \<lparr>op_id = HandshakeID, op_body = handshake_body c st\<rparr> = Inr hs" ..
  have ws: "WriteString \<lparr>op_id = HandshakeID, op_body = uvarint_bytes (ucast (protocol c))\<rparr> (Host (addr c))
      = (None, \<lparr>op_id = HandshakeID, op_body = uvarint_bytes (ucast (protocol c)) @ uvarint_bytes (ucast hl) @ Host (addr c)\<rparr>)"
    using h by (simp add: WriteString_def Let_def MaxStringLength_def WriteVarInt_def
        hl_def [symmetric] e2 WriteBytes_def)
  have "sendHandshake c st
          = (None, c\<lparr>conn := Some (k\<lparr>sent := sent k @ [hs], wr_budget := wr_budget k - 1\<rparr>),
                     state := HandshakeComplete\<rparr>)"
    using client_Write_ok [OF k hs]
    by (simp add: sendHandshake_def WriteVarInt_def e1 e3 NewOutboundPacket_def WriteBytes_def ws
        WriteShort_def handshake_body_def hl_def [symmetric])
  with hs show ?thesis by blast
qed

lemma Build_status_request: "Build (NewOutboundPacket StatusID) = Inr [0x01, 0x00]"
proof -
  have "encodeVarInt 0 = Inr [0x00]" "encodeVarInt 1 = Inr [0x01]" by code_simp+
  then show ?thesis
    by (simp add: Build_def NewOutboundPacket_def StatusID_def Let_def MaxPacketLength_def)
qed

lemma sendStatusRequest_ok:
  assumes "conn c = Some k" and "0 < wr_budget k"
  shows "sendStatusRequest c
           = (None, c\<lparr>conn := Some (k\<lparr>sent := sent k @ [[0x01, 0x00]],
                                          wr_budget := wr_budget k - 1\<rparr>)\<rparr>)"
  using client_Write_ok [OF assms Build_status_request] by (simp add: sendStatusRequest_def)

lemma NewInboundPacket_sent: "sent (conn_after (NewInboundPacket k)) = sent k"
  by (simp add: NewInboundPacket_def Let_def split: prod.splits sum.splits)

lemma client_NewInboundPacket_keeps:
  assumes "conn c = Some k" and "client_NewInboundPacket c = (r, c')"
  shows "state c' = state c \<and> (\<exists>k'. conn c' = Some k' \<and> sent k' = sent k)"
  using assms by (auto simp: client_NewInboundPacket_def Let_def NewInboundPacket_sent)

lemma recvStatusResponse_keeps:
  assumes "conn c = Some k" and "recvStatusResponse c = (r, c')"
  shows "state c' = state c \<and> (\<exists>k'. conn c' = Some k' \<and> sent k' = sent k)"
proof -
  obtain r0 c0 where n: "client_NewInboundPacket c = (r0, c0)" by (cases "client_NewInboundPacket c")
  from client_NewInboundPacket_keeps [OF assms(1) n]
  have k: "state c0 = state c \<and> (\<exists>k'. conn c0 = Some k' \<and> sent k' = sent k)" .
  from assms(2) n have "c' = c0"
    by (auto simp: recvStatusResponse_def split: sum.splits prod.splits if_splits)
  with k show ?thesis by simp
qed

lemma connectAndHandshake_Idle:
  assumes idle: "state c = Idle"
    and dial: "net_dial w (addr c1) = Some k"
    and c1: "c1 = (if use_srv c then c\<lparr>addr := net_resolve w (addr c)\<rparr> else c)"
    and wb: "0 < wr_budget k"
    and pr: "0 \<le> sint (protocol c)" and st: "0 \<le> sint st"
    and h: "length (Host (addr c1)) \<le> 32767"
  shows "\<exists>hs. Build \<lparr>op_id = HandshakeID, op_body = handshake_body c1 st\<rparr> = Inr hs
           \<and> connectAndHandshake w c st
               = (None, c1\<lparr>conn := Some (k\<lparr>sent := sent k @ [hs], wr_budget := wr_budget k - 1\<rparr>),
                           state := HandshakeComplete\<rparr>)"
proof -
  let ?c2 = "c1\<lparr>conn := Some k, state := Connected\<rparr>"
  have con: "connect w c = (None, ?c2)"
    using connect_Idle [OF idle] dial c1 by simp
  have pr2: "0 \<le> sint (protocol ?c2)" using pr c1 by simp
  have h2: "length (Host (addr ?c2)) \<le> 32767" using h by simp
  have "conn ?c2 = Some k" by simp
  from sendHandshake_ok [OF this wb pr2 st h2]
  obtain hs where hs: "Build \<lparr>op_id = HandshakeID, op_body = handshake_body ?c2 st\<rparr> = Inr hs"
    and sh: "sendHandshake ?c2 st
       = (None, ?c2\<lparr>conn := Some (k\<lparr>sent := sent k @ [hs], wr_budget := wr_budget k - 1\<rparr>),
                     state := HandshakeComplete\<rparr>)"
    by blast
  have hb: "handshake_body ?c2 st = handshake_body c1 st" by (simp add: handshake_body_def)
  have "connectAndHandshake w c st
          = (None, c1\<lparr>conn := Some (k\<lparr>sent := sent k @ [hs], wr_budget := wr_budget k - 1\<rparr>),
                      state := HandshakeComplete\<rparr>)"
    using idle con sh by (simp add: connectAndHandshake_def)
  with hs hb show ?thesis by auto
qed

text \<open>
  \<open>Status\<close> on a client in state \<open>Idle\<close> whose protocol version is not negative: when the
  dial succeeds (the connection accepting two writes) and the host name fits a string,
  the connection that was dialled has received, in this order, the handshake frame and
  then the status request \<open>01 00\<close>, and the client is in state \<open>HandshakeComplete\<close>,
  whatever the server answers. And \<open>connect\<close> on a client in any state above \<open>Idle\<close>
  fails with the already-connected error and changes nothing.
\<close>

lemma Status_handshakes_first_and_connect_twice:
  "(state c = Idle
      \<and> net_dial w (addr (if use_srv c then c\<lparr>addr := net_resolve w (addr c)\<rparr> else c)) = Some k
      \<and> 2 \<le> wr_budget k \<and> 0 \<le> sint (protocol c)
      \<and> length (Host (addr (if use_srv c then c\<lparr>addr := net_resolve w (addr c)\<rparr> else c))) \<le> 32767
    \<longrightarrow> (\<exists>hs k'.
           Build \<lparr>op_id = HandshakeID,
                  op_body = handshake_body
                    (if use_srv c then c\<lparr>addr := net_resolve w (addr c)\<rparr> else c) StatusState\<rparr>
             = Inr hs
           \<and> conn (snd (Status w NewResponse c)) = Some k'
           \<and> sent k' = sent k @ [hs, [0x01, 0x00]]
           \<and> state (snd (Status w NewResponse c)) = HandshakeComplete))
   \<and> (state c \<noteq> Idle \<longrightarrow> connect w c = (Some AlreadyConnected, c))"
proof (intro conjI impI)
  assume "state c \<noteq> Idle"
  then show "connect w c = (Some AlreadyConnected, c)"
    by (cases "state c") (simp_all add: connect_def)
next
  let ?c1 = "if use_srv c then c\<lparr>addr := net_resolve w (addr c)\<rparr> else c"
  assume a: "state c = Idle \<and> net_dial w (addr ?c1) = Some k \<and> 2 \<le> wr_budget k
      \<and> 0 \<le> sint (protocol c) \<and> length (Host (addr ?c1)) \<le> 32767"
  then have wb: "0 < wr_budget k" and wb2: "0 < wr_budget k - 1" by simp_all
  have st: "0 \<le> sint StatusState" by (simp add: StatusState_def)
  from a have idle: "state c = Idle" and dial: "net_dial w (addr ?c1) = Some k"
    and pr: "0 \<le> sint (protocol c)" and h: "length (Host (addr ?c1)) \<le> 32767" by simp_all
  from connectAndHandshake_Idle [OF idle dial refl wb pr st h]
  obtain hs where hs: "Build \<lparr>op_id = HandshakeID, op_body = handshake_body ?c1 StatusState\<rparr> = Inr hs"
    and ch: "connectAndHandshake w c StatusState
       = (None, ?c1\<lparr>conn := Some (k\<lparr>sent := sent k @ [hs], wr_budget := wr_budget k - 1\<rparr>),
                     state := HandshakeComplete\<rparr>)"
    by blast
  let ?k1 = "k\<lparr>sent := sent k @ [hs], wr_budget := wr_budget k - 1\<rparr>"
  let ?c2 = "?c1\<lparr>conn := Some ?k1, state := HandshakeComplete\<rparr>"
  let ?k2 = "?k1\<lparr>sent := sent ?k1 @ [[0x01, 0x00]], wr_budget := wr_budget ?k1 - 1\<rparr>"
  let ?c3 = "?c2\<lparr>conn := Some ?k2\<rparr>"
  have sr: "sendStatusRequest ?c2 = (None, ?c3)"
    using wb2 by (intro sendStatusRequest_ok) simp_all
  obtain r c4 where rc: "recvStatusResponse ?c3 = (r, c4)" by (cases "recvStatusResponse ?c3")
  have "conn ?c3 = Some ?k2" by simp
  from recvStatusResponse_keeps [OF this rc]
  obtain k' where k': "state c4 = HandshakeComplete" "conn c4 = Some k'" "sent k' = sent ?k2"
    by auto
  have "snd (Status w NewResponse c) = c4"
    using ch sr rc by (simp add: Status_def split: sum.splits)
  with k' hs show "\<exists>hs k'.
           Build \<lparr>op_id = HandshakeID, op_body = handshake_body ?c1 StatusState\<rparr> = Inr hs
           \<and> conn (snd (Status w NewResponse c)) = Some k'
           \<and> sent k' = sent k @ [hs, [0x01, 0x00]]
           \<and> state (snd (Status w NewResponse c)) = HandshakeComplete"
    by auto
qed

lemma Status_handshakes_first_and_connect_twice_example:
  "(\<exists>k'. conn (snd (Status
        \<lparr>net_resolve = (\<lambda>a. a),
         net_dial = (\<lambda>a. Some \<lparr>inbound = [], sent = [], wr_budget = 2, deadline_ok = True\<rparr>),
         clock_unix = 0, clock_since_ms = 0\<rparr>
        (\<lambda>raw. Inr raw)
        \<lparr>addr = \<lparr>host = [0x6D, 0x63], port = 25565, srvHost = [], srvPort = 0, srv = False,
                 portSet = False\<rparr>,
         use_srv = True, protocol = 47, state = Idle, conn = None\<rparr>)) = Some k'
      \<and> sent k' = [[0x08, 0x00, 0x2F, 0x02, 0x6D, 0x63, 0x63, 0xDD, 0x01], [0x01, 0x00]])
   \<and> state (snd (Status
        \<lparr>net_resolve = (\<lambda>a. a),
         net_dial = (\<lambda>a. Some \<lparr>inbound = [], sent = [], wr_budget = 2, deadline_ok = True\<rparr>),
         clock_unix = 0, clock_since_ms = 0\<rparr>
        (\<lambda>raw. Inr raw)
        \<lparr>addr = \<lparr>host = [0x6D, 0x63], port = 25565, srvHost = [], srvPort = 0, srv = False,
                 portSet = False\<rparr>,
         use_srv = True, protocol = 47, state = Idle, conn = None\<rparr>)) = HandshakeComplete
   \<and> connect
        \<lparr>net_resolve = (\<lambda>a. a),
         net_dial = (\<lambda>a. Some \<lparr>inbound = [], sent = [], wr_budget = 2, deadline_ok = True\<rparr>),
         clock_unix = 0, clock_since_ms = 0\<rparr>
        \<lparr>addr = \<lparr>host = [0x6D, 0x63], port = 25565, srvHost = [], srvPort = 0, srv = False,
                 portSet = False\<rparr>,
         use_srv = True, protocol = 47, state = Connected,
         conn = Some \<lparr>inbound = [], sent = [], wr_budget = 2, deadline_ok = True\<rparr>\<rparr>
       = (Some AlreadyConnected,
          \<lparr>addr = \<lparr>host = [0x6D, 0x63], port = 25565, srvHost = [], srvPort = 0, srv = False,
                 portSet = False\<rparr>,
           use_srv = True, protocol = 47, state = Connected,
           conn = Some \<lparr>inbound = [], sent = [], wr_budget = 2, deadline_ok = True\<rparr>\<rparr>)"
proof -
  let ?k = "\<lparr>inbound = [], sent = [], wr_budget = 2, deadline_ok = True\<rparr>"
  let ?w = "\<lparr>net_resolve = (\<lambda>a. a), net_dial = (\<lambda>a. Some ?k),
         clock_unix = 0, clock_since_ms = 0\<rparr>"
  let ?a = "\<lparr>host = [0x6D, 0x63], port = 25565, srvHost = [], srvPort = 0, srv = False,
                 portSet = False\<rparr>"
  let ?c = "\<lparr>addr = ?a, use_srv = True, protocol = 47, state = Idle, conn = None\<rparr>"
  let ?c' = "\<lparr>addr = ?a, use_srv = True, protocol = 47, state = Connected, conn = Some ?k\<rparr>"
  let ?S = "Status ?w (\<lambda>raw. Inr raw :: error + byte list) ?c"
  have u: "uvarint_bytes 0 = [0x00]" "uvarint_bytes 1 = [0x01]" "uvarint_bytes 2 = [0x02]"
    "uvarint_bytes 47 = [0x2F]"
    by (subst uvarint_bytes.simps, simp add: word_le_nat_alt)+
  have e: "encodeVarInt 0 = Inr [0x00]" "encodeVarInt 8 = Inr [0x08]" by code_simp+
  have hb: "handshake_body ?c StatusState = [0x2F, 0x02, 0x6D, 0x63, 0x63, 0xDD, 0x01]"
    by (simp add: handshake_body_def StatusState_def Host_def Port_def PutUint16_def u)
  have b: "Build \<lparr>op_id = HandshakeID, op_body = [0x2F, 0x02, 0x6D, 0x63, 0x63, 0xDD, 0x01]\<rparr>
             = Inr [0x08, 0x00, 0x2F, 0x02, 0x6D, 0x63, 0x63, 0xDD, 0x01]"
    by (simp add: Build_def HandshakeID_def Let_def MaxPacketLength_def e)
  have c1: "(if use_srv ?c then ?c\<lparr>addr := net_resolve ?w (addr ?c)\<rparr> else ?c) = ?c" by simp
  from Status_handshakes_first_and_connect_twice
    [of ?c ?w ?k "\<lambda>raw. Inr raw :: error + byte list"]
  have "\<exists>hs k'. Build \<lparr>op_id = HandshakeID, op_body = handshake_body ?c StatusState\<rparr> = Inr hs
           \<and> conn (snd ?S) = Some k' \<and> sent k' = sent ?k @ [hs, [0x01, 0x00]]
           \<and> state (snd ?S) = HandshakeComplete"
    by (simp add: Host_def)
  then have s: "(\<exists>k'. conn (snd ?S) = Some k'
        \<and> sent k' = [[0x08, 0x00, 0x2F, 0x02, 0x6D, 0x63, 0x63, 0xDD, 0x01], [0x01, 0x00]])
      \<and> state (snd ?S) = HandshakeComplete"
    by (auto simp: hb b)
  from Status_handshakes_first_and_connect_twice
    [of ?c' ?w ?k "\<lambda>raw. Inr raw :: error + byte list"]
  have "connect ?w ?c' = (Some AlreadyConnected, ?c')" by simp
  with s show ?thesis by simp
qed

text \<open>
  C6 (state-machine sequencing). The claim: \<open>Status\<close> on a client in state \<open>Idle\<close>
  establishes the connection and performs the handshake before it sends the status
  request, and \<open>connect\<close> above \<open>Idle\<close> fails with the already-connected error. The
  second half holds, and so does the first for every protocol version that is not
  negative (lemma \<open>Status_handshakes_first_and_connect_twice\<close>). The handshake comment
  of \<open>client.go\<close> names the protocol version \<open>-1\<close> ("not set"), and \<open>WithProtocolVersion\<close>
  accepts it: on such a client \<open>Status\<close> dials, and \<open>sendHandshake\<close> then panics in
  \<open>WriteVarInt(c.protocol)\<close> (the five-byte buffer again) before anything is written:
  no handshake, no status request.
\<close>

theorem Status_negative_protocol_panics:
  "Status
     \<lparr>net_resolve = (\<lambda>a. a),
      net_dial = (\<lambda>a. Some \<lparr>inbound = [], sent = [], wr_budget = 2, deadline_ok = True\<rparr>),
      clock_unix = 0, clock_since_ms = 0\<rparr>
     (\<lambda>raw. Inr raw)
     \<lparr>addr = \<lparr>host = [0x6D, 0x63], port = 25565, srvHost = [], srvPort = 0, srv = False,
              portSet = False\<rparr>,
      use_srv = True, protocol = - 1, state = Idle, conn = None\<rparr>
   = (Inl (Panic IndexOutOfRange),
      \<lparr>addr = \<lparr>host = [0x6D, 0x63], port = 25565, srvHost = [], srvPort = 0, srv = False,
               portSet = False\<rparr>,
       use_srv = True, protocol = - 1, state = Connected,
       conn = Some \<lparr>inbound = [], sent = [], wr_budget = 2, deadline_ok = True\<rparr>\<rparr>)"
proof -
  have "sint (- 1 :: int32) < 0" by simp
  then have "encodeVarInt (- 1) = Inl (Panic IndexOutOfRange)" by (rule encodeVarInt_negative)
  then have e: "WriteVarInt (NewOutboundPacket HandshakeID) (- 1) = Inl (Panic IndexOutOfRange)"
    by (simp add: WriteVarInt_def encodeVarInt_def)
  show ?thesis
    by (simp add: Status_def connectAndHandshake_def connect_def sendHandshake_def e Let_def)
qed

lemma sendHandshake_None_state:
  "sendHandshake c st = (None, c') \<Longrightarrow> state c' = HandshakeComplete"
  by (auto simp: sendHandshake_def split: sum.splits prod.splits option.splits)

lemma connectAndHandshake_None_state:
  assumes "connectAndHandshake w c st = (None, c1)"
  shows "state c1 = HandshakeComplete"
proof (cases "state_rank (state c) < state_rank Connected")
  case True
  obtain e c0 where con: "connect w c = (e, c0)" by (cases "connect w c")
  with assms True have e: "e = None"
    by (cases e) (simp_all add: connectAndHandshake_def)
  from con e have "state c0 = Connected"
    by (auto simp: connect_def Let_def split: if_splits option.splits)
  with assms True con e show ?thesis
    by (simp add: connectAndHandshake_def sendHandshake_None_state)
next
  case False
  with assms show ?thesis
    by (cases "state c")
       (auto simp: connectAndHandshake_def sendHandshake_None_state split: if_splits)
qed

lemma uvarint_bytes_1: "uvarint_bytes 1 = [1]"
  by (subst uvarint_bytes.simps) (simp add: word_le_nat_alt)

lemma length_PutUint64: "length (PutUint64 v) = 8"
  by (simp add: PutUint64_def)

text \<open>The ping frame: length 9, packet id 1, the timestamp as eight big-endian bytes.\<close>

lemma Build_ping:
  "Build (WriteLong (NewOutboundPacket PingID) t) = Inr ([0x09, 0x01] @ PutUint64 t)"
proof -
  have e: "encodeVarInt 1 = Inr [0x01]" "encodeVarInt 9 = Inr [0x09]" by code_simp+
  show ?thesis
    by (simp add: Build_def WriteLong_def WriteBytes_def NewOutboundPacket_def PingID_def
        Let_def MaxPacketLength_def length_PutUint64 e)
qed

lemma recvPong_frame:
  assumes k: "conn c = Some k" and dl: "deadline_ok k"
    and b: "Build (WriteLong (NewOutboundPacket PongID) payload) = Inr frame"
    and i: "inbound k = frame @ rest"
  shows "recvPong c = (Inr payload, c\<lparr>conn := Some (k\<lparr>inbound := rest\<rparr>)\<rparr>)"
proof -
  let ?p = "WriteLong (NewOutboundPacket PongID) payload"
  have id: "0 \<le> sint (op_id ?p)"
    by (simp add: WriteLong_def WriteBytes_def NewOutboundPacket_def PongID_def)
  have len: "int (length (uvarint_bytes (ucast (op_id ?p) :: uint64) @ op_body ?p)) \<le> MaxPacketLength"
    by (simp add: WriteLong_def WriteBytes_def NewOutboundPacket_def PongID_def PutUint64_def
        MaxPacketLength_def uvarint_bytes_1)
  from frame_roundtrip [OF id len dl, of rest] b
  have "NewInboundPacket (k\<lparr>inbound := frame @ rest\<rparr>)
          = \<lparr>outcome = Inr \<lparr>ip_id = op_id ?p, ip_reader = op_body ?p\<rparr>,
             conn_after = k\<lparr>inbound := rest\<rparr>,
             body_alloc = Some (int (length (uvarint_bytes (ucast (op_id ?p) :: uint64) @ op_body ?p)))\<rparr>"
    by auto
  moreover have "k\<lparr>inbound := frame @ rest\<rparr> = k" using i by simp
  ultimately have n: "NewInboundPacket k
          = \<lparr>outcome = Inr \<lparr>ip_id = op_id ?p, ip_reader = op_body ?p\<rparr>,
             conn_after = k\<lparr>inbound := rest\<rparr>,
             body_alloc = Some (int (length (uvarint_bytes (ucast (op_id ?p) :: uint64) @ op_body ?p)))\<rparr>"
    by simp
  have rl: "ReadLong \<lparr>ip_id = PongID, ip_reader = op_body ?p\<rparr>
              = (Inr payload, \<lparr>ip_id = PongID, ip_reader = []\<rparr>)"
    by (simp add: ReadLong_def ReadFull_def WriteLong_def WriteBytes_def NewOutboundPacket_def
        Uint64_PutUint64 length_PutUint64)
  have opid: "op_id ?p = PongID" by (simp add: WriteLong_def WriteBytes_def NewOutboundPacket_def)
  show ?thesis
    using k by (simp add: recvPong_def client_NewInboundPacket_def n Let_def opid rl)
qed

text \<open>
  C7 (ping semantics). With the connection and handshake in place, \<open>Ping\<close> writes one
  frame on the connection: the ping frame \<open>09 01\<close> followed by the Unix time of
  \<open>time.Now()\<close> in eight big-endian bytes; this is the timestamp sent. The server answers
  with a pong frame carrying \<open>payload\<close>. When \<open>payload\<close> differs from the timestamp sent,
  \<open>Ping\<close> returns the wrong-pong-id error together with the measured latency
  (\<open>time.Since\<close>, not the 0 of the other error returns) and the state stays
  \<open>HandshakeComplete\<close>; when it equals the timestamp sent, \<open>Ping\<close> returns the latency
  with no error and the state is reset to \<open>Idle\<close>.
\<close>

theorem Ping_mismatch_keeps_latency_and_pong_resets_state:
  "connectAndHandshake w c StatusState = (None, c1) \<and> conn c1 = Some k \<and> 0 < wr_budget k
     \<and> deadline_ok k
     \<and> Build (WriteLong (NewOutboundPacket PongID) payload) = Inr frame
     \<and> inbound k = frame @ rest
   \<longrightarrow> (\<exists>k'. conn (snd (Ping w c)) = Some k'
              \<and> sent k' = sent k @ [[0x09, 0x01] @ PutUint64 (clock_unix w)])
     \<and> (payload \<noteq> clock_unix w \<longrightarrow>
          fst (Ping w c) = (clock_since_ms w, Some WrongPongId)
          \<and> state (snd (Ping w c)) = HandshakeComplete)
     \<and> (payload = clock_unix w \<longrightarrow>
          fst (Ping w c) = (clock_since_ms w, None) \<and> state (snd (Ping w c)) = Idle)"
proof (intro impI)
  assume a: "connectAndHandshake w c StatusState = (None, c1) \<and> conn c1 = Some k
     \<and> 0 < wr_budget k \<and> deadline_ok k
     \<and> Build (WriteLong (NewOutboundPacket PongID) payload) = Inr frame
     \<and> inbound k = frame @ rest"
  then have ch: "connectAndHandshake w c StatusState = (None, c1)" and k: "conn c1 = Some k"
    and wb: "0 < wr_budget k" and dl: "deadline_ok k"
    and b: "Build (WriteLong (NewOutboundPacket PongID) payload) = Inr frame"
    and i: "inbound k = frame @ rest" by simp_all
  have st1: "state c1 = HandshakeComplete" using ch by (rule connectAndHandshake_None_state)
  define pf where "pf = [0x09, 0x01] @ PutUint64 (clock_unix w)"
  have pf: "Build (WriteLong (NewOutboundPacket PingID) (clock_unix w)) = Inr pf"
    unfolding pf_def by (rule Build_ping)
  let ?k2 = "k\<lparr>sent := sent k @ [pf], wr_budget := wr_budget k - 1\<rparr>"
  let ?c2 = "c1\<lparr>conn := Some ?k2\<rparr>"
  have sp: "sendPing c1 (clock_unix w) = (None, ?c2)"
    using client_Write_ok [OF k wb pf] by (simp add: sendPing_def)
  have rp: "recvPong ?c2 = (Inr payload, ?c2\<lparr>conn := Some (?k2\<lparr>inbound := rest\<rparr>)\<rparr>)"
    using dl b i by (intro recvPong_frame) simp_all
  have p: "Ping w c =
      (if payload \<noteq> clock_unix w
       then ((clock_since_ms w, Some WrongPongId), ?c2\<lparr>conn := Some (?k2\<lparr>inbound := rest\<rparr>)\<rparr>)
       else ((clock_since_ms w, None),
             ?c2\<lparr>conn := Some (?k2\<lparr>inbound := rest\<rparr>), state := Idle\<rparr>))"
    by (simp only: Ping_def ch Let_def sp rp prod.case option.case sum.case)
  have s: "\<exists>k'. conn (snd (Ping w c)) = Some k' \<and> sent k' = sent k @ [pf]"
    by (simp add: p)
  show "(\<exists>k'. conn (snd (Ping w c)) = Some k'
              \<and> sent k' = sent k @ [[0x09, 0x01] @ PutUint64 (clock_unix w)])
     \<and> (payload \<noteq> clock_unix w \<longrightarrow>
          fst (Ping w c) = (clock_since_ms w, Some WrongPongId)
          \<and> state (snd (Ping w c)) = HandshakeComplete)
     \<and> (payload = clock_unix w \<longrightarrow>
          fst (Ping w c) = (clock_since_ms w, None) \<and> state (snd (Ping w c)) = Idle)"
    using s unfolding pf_def by (simp add: p st1)
qed

theorem Ping_mismatch_keeps_latency_and_pong_resets_state_witness:
  "fst (Ping \<lparr>net_resolve = (\<lambda>a. a), net_dial = (\<lambda>a. None), clock_unix = 1700000000,
               clock_since_ms = 42\<rparr>
         \<lparr>addr = \<lparr>host = [0x6D, 0x63], port = 25565, srvHost = [], srvPort = 0, srv = False,
                  portSet = False\<rparr>,
          use_srv = True, protocol = 47, state = HandshakeComplete,
          conn = Some \<lparr>inbound = [0x09, 0x01, 0, 0, 0, 0, 0, 0, 0, 0x07], sent = [],
                       wr_budget = 1, deadline_ok = True\<rparr>\<rparr>)
     = (42, Some WrongPongId)
   \<and> state (snd (Ping \<lparr>net_resolve = (\<lambda>a. a), net_dial = (\<lambda>a. None),
                 clock_unix = 1700000000, clock_since_ms = 42\<rparr>
         \<lparr>addr = \<lparr>host = [0x6D, 0x63], port = 25565, srvHost = [], srvPort = 0, srv = False,
                  portSet = False\<rparr>,
          use_srv = True, protocol = 47, state = HandshakeComplete,
          conn = Some \<lparr>inbound = [0x09, 0x01, 0, 0, 0, 0, 0, 0, 0, 0x07], sent = [],
                       wr_budget = 1, deadline_ok = True\<rparr>\<rparr>)) = HandshakeComplete
   \<and> fst (Ping \<lparr>net_resolve = (\<lambda>a. a), net_dial = (\<lambda>a. None), clock_unix = 1700000000,
               clock_since_ms = 42\<rparr>
         \<lparr>addr = \<lparr>host = [0x6D, 0x63], port = 25565, srvHost = [], srvPort = 0, srv = False,
                  portSet = False\<rparr>,
          use_srv = True, protocol = 47, state = HandshakeComplete,
          conn = Some \<lparr>inbound = [0x09, 0x01, 0, 0, 0, 0, 0x65, 0x53, 0xF1, 0x00], sent = [],
                       wr_budget = 1, deadline_ok = True\<rparr>\<rparr>)
     = (42, None)
   \<and> state (snd (Ping \<lparr>net_resolve = (\<lambda>a. a), net_dial = (\<lambda>a. None),
                 clock_unix = 1700000000, clock_since_ms = 42\<rparr>
         \<lparr>addr = \<lparr>host = [0x6D, 0x63], port = 25565, srvHost = [], srvPort = 0, srv = False,
                  portSet = False\<rparr>,
          use_srv = True, protocol = 47, state = HandshakeComplete,
          conn = Some \<lparr>inbound = [0x09, 0x01, 0, 0, 0, 0, 0x65, 0x53, 0xF1, 0x00], sent = [],
                       wr_budget = 1, deadline_ok = True\<rparr>\<rparr>)) = Idle
   \<and> (\<exists>k'. conn (snd (Ping \<lparr>net_resolve = (\<lambda>a. a), net_dial = (\<lambda>a. None),
                 clock_unix = 1700000000, clock_since_ms = 42\<rparr>
         \<lparr>addr = \<lparr>host = [0x6D, 0x63], port = 25565, srvHost = [], srvPort = 0, srv = False,
                  portSet = False\<rparr>,
          use_srv = True, protocol = 47, state = HandshakeComplete,
          conn = Some \<lparr>inbound = [0x09, 0x01, 0, 0, 0, 0, 0x65, 0x53, 0xF1, 0x00], sent = [],
                       wr_budget = 1, deadline_ok = True\<rparr>\<rparr>)) = Some k'
        \<and> sent k' = [[0x09, 0x01, 0, 0, 0, 0, 0x65, 0x53, 0xF1, 0x00]])"
proof -
  let ?w = "\<lparr>net_resolve = (\<lambda>a. a), net_dial = (\<lambda>a. None), clock_unix = 1700000000,
               clock_since_ms = 42\<rparr>"
  let ?k1 = "\<lparr>inbound = [0x09, 0x01, 0, 0, 0, 0, 0, 0, 0, 0x07], sent = [],
                       wr_budget = 1, deadline_ok = True\<rparr>"
  let ?k2 = "\<lparr>inbound = [0x09, 0x01, 0, 0, 0, 0, 0x65, 0x53, 0xF1, 0x00], sent = [],
                       wr_budget = 1, deadline_ok = True\<rparr>"
  let ?c = "\<lambda>k. \<lparr>addr = \<lparr>host = [0x6D, 0x63], port = 25565, srvHost = [], srvPort = 0, srv = False,
                  portSet = False\<rparr>,
          use_srv = True, protocol = 47, state = HandshakeComplete, conn = Some k\<rparr>"
  have e: "encodeVarInt 1 = Inr [0x01]" "encodeVarInt 9 = Inr [0x09]" by code_simp+
  have b1: "Build (WriteLong (NewOutboundPacket PongID) 7) = Inr [0x09, 0x01, 0, 0, 0, 0, 0, 0, 0, 0x07]"
    by (simp add: Build_def WriteLong_def WriteBytes_def NewOutboundPacket_def PongID_def
        PutUint64_def Let_def MaxPacketLength_def e)
  have b2: "Build (WriteLong (NewOutboundPacket PongID) 1700000000)
      = Inr [0x09, 0x01, 0, 0, 0, 0, 0x65, 0x53, 0xF1, 0x00]"
    by (simp add: Build_def WriteLong_def WriteBytes_def NewOutboundPacket_def PongID_def
        PutUint64_def Let_def MaxPacketLength_def e)
  have ch: "\<And>k. connectAndHandshake ?w (?c k) StatusState = (None, ?c k)"
    by (simp add: connectAndHandshake_def)
  have n: "(7 :: int64) \<noteq> 1700000000" by simp
  from Ping_mismatch_keeps_latency_and_pong_resets_state
    [of ?w "?c ?k1" "?c ?k1" ?k1 7 "[0x09, 0x01, 0, 0, 0, 0, 0, 0, 0, 0x07]" "[]"] ch b1 n
  have m: "fst (Ping ?w (?c ?k1)) = (42, Some WrongPongId)
      \<and> state (snd (Ping ?w (?c ?k1))) = HandshakeComplete"
    by simp
  from Ping_mismatch_keeps_latency_and_pong_resets_state
    [of ?w "?c ?k2" "?c ?k2" ?k2 1700000000 "[0x09, 0x01, 0, 0, 0, 0, 0x65, 0x53, 0xF1, 0x00]" "[]"]
    ch b2
  have r: "fst (Ping ?w (?c ?k2)) = (42, None) \<and> state (snd (Ping ?w (?c ?k2))) = Idle
      \<and> (\<exists>k'. conn (snd (Ping ?w (?c ?k2))) = Some k'
            \<and> sent k' = [[0x09, 0x01] @ PutUint64 1700000000])"
    by simp
  have t: "PutUint64 1700000000 = [0, 0, 0, 0, 0x65, 0x53, 0xF1, 0x00]"
    by (simp add: PutUint64_def)
  from m r show ?thesis by (simp add: t)
qed

section \<open>Properties of the fingerprint cascade\<close>

lemma spigot_reason_stripped:
  "ReplaceAll_to_end re_larger (TrimPrefix spigot_reason netty_prefix)
     = ''login/0 (PacketLoginInStart)''"
  by (simp add: TrimPrefix_def spigot_reason_def netty_prefix_def re_larger_def Let_def
      rune_extra_def)

lemma spigot_reason_stripped_p2:
  "ReplaceAll_at_start re_state_prefix_p2
     (ReplaceAll_to_end re_larger_p2 (TrimPrefix spigot_reason netty_prefix))
     = ''(PacketLoginInStart)''"
  by (simp add: TrimPrefix_def spigot_reason_def netty_prefix_def re_larger_p2_def
      re_state_prefix_p2_def ReplaceAll_at_start_def Let_def rune_extra_def)

text \<open>
  C8 (fingerprint cascade, literal case). A disconnect message whose \<open>translate\<close> is
  \<open>disconnect.genericReason\<close> and whose first substitution argument is the Spigot text
  "... Packet login/0 (PacketLoginInStart) was larger than I expected, found 1 bytes extra
  whilst reading packet 0" is classified \<open>craftbukkit\<close> with no error, by both revisions
  of \<open>Fingerprint\<close>. The \<open>text\<close> field is not one of the two texts that the cascade
  tests first (it is empty when \<open>translate\<close> and \<open>with\<close> are populated).
\<close>

theorem Fingerprint_craftbukkit:
  assumes "Translate m = ''disconnect.genericReason''"
    and "With m = spigot_reason # ws"
    and "Text m \<noteq> ''This server is only compatible with Minecraft 1.13 and above.''"
    and "Text m \<noteq> ''Connection throttled! Please wait before reconnecting.''"
  shows "Fingerprint m = (''craftbukkit'', None) \<and> Fingerprint_p2 m = (''craftbukkit'', None)"
proof
  show "Fingerprint m = (''craftbukkit'', None)"
    using assms by (simp add: Fingerprint_def spigot_reason_stripped CraftBukkit_def)
  show "Fingerprint_p2 m = (''craftbukkit'', None)"
    using assms by (simp add: Fingerprint_p2_def spigot_reason_stripped_p2 CraftBukkit_def)
qed

theorem Fingerprint_craftbukkit_witness:
  "Fingerprint \<lparr>Translate = ''disconnect.genericReason'', With = [spigot_reason], Text = []\<rparr>
     = (''craftbukkit'', None)
   \<and> Fingerprint_p2 \<lparr>Translate = ''disconnect.genericReason'', With = [spigot_reason], Text = []\<rparr>
     = (''craftbukkit'', None)"
  using Fingerprint_craftbukkit
    [of "\<lparr>Translate = ''disconnect.genericReason'', With = [spigot_reason], Text = []\<rparr>" "[]"]
  by simp

text \<open>The second copy of \<open>fingerprint.go\<close> reports the version mismatch for the key
  \<open>multiplayer.disconnect.outdated_client\<close>.\<close>

lemma classify_msg_p2_outdated_client:
  "classify_msg_p2 \<lparr>Translate = ''multiplayer.disconnect.outdated_client'',
      With = [''1.20.2''], Text = []\<rparr> = (''unknown'', Some (VersionMismatchError ''1.20.2''))"
  by (simp add: classify_msg_p2_def VersionMismatch_p2_def Unknown_def)

text \<open>
  C9 (fingerprint, version-mismatch case). The claim: a disconnect message with
  \<open>translate = multiplayer.disconnect.outdated_client\<close> and \<open>with = ["1.20.2"]\<close> is
  reported as a version-mismatch error carrying \<open>"1.20.2"\<close>, with the label \<open>unknown\<close>.
  \<open>VersionMismatch\<close> of \<open>fingerprint/fingerprint.go\<close> only knows the key
  \<open>multiplayer.disconnect.incompatible\<close>: on this message it answers \<open>(false, "")\<close>, and
  the cascade ends in the unfamiliar-error-topic error instead.
\<close>

theorem classify_msg_outdated_client_unfamiliar:
  "VersionMismatch \<lparr>Translate = ''multiplayer.disconnect.outdated_client'',
      With = [''1.20.2''], Text = []\<rparr> = (False, [])
   \<and> classify_msg \<lparr>Translate = ''multiplayer.disconnect.outdated_client'',
      With = [''1.20.2''], Text = []\<rparr>
     = (''unknown'', Some (UnfamiliarErrorTopic ''multiplayer.disconnect.outdated_client''))"
  by (simp add: classify_msg_def VersionMismatch_def Fingerprint_def Unknown_def)

end
